theory Spec2Isabelle
  imports Complex_Main "HOL-Library.AList"
begin

section \<open>Session service (src/services/sessionService.ts)\<close>

text \<open>
  Times are the millisecond values of \<^verbatim>\<open>Date.getTime()\<close>. Every \<^verbatim>\<open>new Date()\<close> of the
  source is an explicit clock reading passed to the model. The two JavaScript maps
  \<^verbatim>\<open>sessions\<close> and \<^verbatim>\<open>tokenToSessionMap\<close> are partial functions; the session objects
  they hold are mutated in place by the source, which the model writes back into the map.
\<close>

datatype SessionType = ANONYMOUS | AUTHENTICATED | ADMIN

record SessionSettings =
  pref_fps :: real
  pref_quality :: real
  pref_adaptiveBitrate :: bool
  resolution_width :: int
  resolution_height :: int

record Session =
  session_id :: string
  token :: string
  session_type :: SessionType
  userId :: "string option"
  username :: "string option"
  session_browserId :: "string option"
  createdAt :: int
  lastActivity :: int
  ipAddress :: string
  userAgent :: string
  session_settings :: SessionSettings
  metadata :: "(string \<times> string) list"

record session_store =
  sessions :: "string \<rightharpoonup> Session"
  tokenToSessionMap :: "string \<rightharpoonup> string"

definition SESSION_TIMEOUT :: int where
  "SESSION_TIMEOUT = 2 * 60 * 60 * 1000"

text \<open>\<^verbatim>\<open>getSession(idOrToken)\<close>; \<open>now\<close> is the reading of \<^verbatim>\<open>new Date()\<close> in its body.\<close>

definition getSession :: "session_store \<Rightarrow> string \<Rightarrow> int \<Rightarrow> Session option \<times> session_store" where
  "getSession st idOrToken now =
     (let key = (case tokenToSessionMap st idOrToken of Some i \<Rightarrow> i | None \<Rightarrow> idOrToken)
      in case sessions st key of
           Some session \<Rightarrow>
             (let session' = session\<lparr>lastActivity := now\<rparr>
              in (Some session', st\<lparr>sessions := (sessions st)(key \<mapsto> session')\<rparr>))
         | None \<Rightarrow> (None, st))"

definition deleteSession :: "session_store \<Rightarrow> string \<Rightarrow> bool \<times> session_store" where
  "deleteSession st sessionId =
     (case sessions st sessionId of
        None \<Rightarrow> (False, st)
      | Some session \<Rightarrow>
          (True, st\<lparr>tokenToSessionMap := (tokenToSessionMap st)(token session := None),
                    sessions := (sessions st)(sessionId := None)\<rparr>))"

text \<open>
  \<^verbatim>\<open>validateSession(token)\<close>; \<open>t_get\<close> is the clock reading inside the call of
  \<^verbatim>\<open>getSession\<close>, \<open>t_now\<close> the later reading \<^verbatim>\<open>const now = new Date()\<close>. The expiry test
  reads \<^verbatim>\<open>session.lastActivity\<close> of the object \<^verbatim>\<open>getSession\<close> has just returned.
\<close>

definition validateSession :: "session_store \<Rightarrow> string \<Rightarrow> int \<Rightarrow> int \<Rightarrow> Session option \<times> session_store" where
  "validateSession st tok t_get t_now =
     (case getSession st tok t_get of
        (None, st') \<Rightarrow> (None, st')
      | (Some session, st') \<Rightarrow>
          (let timeSinceLastActivity = t_now - lastActivity session
           in if timeSinceLastActivity > SESSION_TIMEOUT
              then (None, snd (deleteSession st' (session_id session)))
              else (Some session, st')))"

text \<open>A concrete store: one anonymous session, last active at time 0.\<close>

definition session0 :: Session where
  "session0 = \<lparr>session_id = ''s1'', token = ''t1'', session_type = ANONYMOUS,
     userId = None, username = None, session_browserId = None,
     createdAt = 0, lastActivity = 0, ipAddress = ''10.0.0.1'', userAgent = ''ua'',
     session_settings = \<lparr>pref_fps = 30, pref_quality = 80, pref_adaptiveBitrate = True,
       resolution_width = 1920, resolution_height = 1080\<rparr>,
     metadata = []\<rparr>"

definition store0 :: session_store where
  "store0 = \<lparr>sessions = [''s1'' \<mapsto> session0], tokenToSessionMap = [''t1'' \<mapsto> ''s1'']\<rparr>"

section \<open>Browser pool (src/services/browserService.ts)\<close>

text \<open>
  \<^verbatim>\<open>activeBrowsers\<close> is a JavaScript \<^verbatim>\<open>Map\<close>, iterated in insertion order: an association
  list, with \<^verbatim>\<open>set\<close> as \<open>AList.update\<close> (replace in place, else append) and \<^verbatim>\<open>delete\<close> as
  \<open>AList.delete\<close>. The Playwright handles \<^verbatim>\<open>browser\<close>, \<^verbatim>\<open>context\<close> and \<^verbatim>\<open>page\<close> of an
  instance belong to the external browser; what a call on them does (succeed or throw)
  is an input of the model. Every \<^verbatim>\<open>Date.now()\<close> is an explicit clock reading.
\<close>

record BrowserInstance =
  instance_id :: string
  url :: string
  instance_lastActivity :: int
  viewportWidth :: int
  viewportHeight :: int

type_synonym pool = "(string \<times> BrowserInstance) list"

datatype pool_error = LaunchError

text \<open>
  \<^verbatim>\<open>closeBrowser(id)\<close>; \<open>closes_ok\<close> is False when one of the three \<^verbatim>\<open>close()\<close> calls throws:
  the \<^verbatim>\<open>catch\<close> branch still removes the entry and returns false.
\<close>

definition closeBrowser :: "pool \<Rightarrow> string \<Rightarrow> bool \<Rightarrow> bool \<times> pool" where
  "closeBrowser p ident closes_ok =
     (case map_of p ident of
        None \<Rightarrow> (False, p)
      | Some instance \<Rightarrow>
          if closes_ok then (True, AList.delete ident p) else (False, AList.delete ident p))"

text \<open>
  The \<^verbatim>\<open>for\<close> loop of \<^verbatim>\<open>createBrowser\<close> that looks for the oldest instance; the pair is
  \<^verbatim>\<open>(oldestId, oldestTimestamp)\<close>, which the source initialises to \<^verbatim>\<open>('', Date.now())\<close>.
\<close>

fun findOldest :: "pool \<Rightarrow> string \<times> int \<Rightarrow> string \<times> int" where
  "findOldest [] acc = acc"
| "findOldest ((ident, instance) # rest) (oldestId, oldestTimestamp) =
     (if instance_lastActivity instance < oldestTimestamp
      then findOldest rest (ident, instance_lastActivity instance)
      else findOldest rest (oldestId, oldestTimestamp))"

text \<open>
  \<^verbatim>\<open>createBrowser(initialUrl, viewportWidth, viewportHeight)\<close>. \<open>MAX_BROWSERS\<close> is read
  from the environment (default 5). \<open>t_check\<close> is the \<^verbatim>\<open>Date.now()\<close> of the eviction
  search; \<open>launched\<close> is \<open>Inl LaunchError\<close> when launching the browser, creating the page
  or the first navigation throws (the error is rethrown to the caller), otherwise
  \<open>Inr\<close> of the fresh uuid; \<open>t_store\<close> is the \<^verbatim>\<open>Date.now()\<close> stored in the new instance.
  \<^verbatim>\<open>if (oldestId)\<close> is the truthiness of a string: it is not empty.
\<close>

definition evictIfFull :: "int \<Rightarrow> pool \<Rightarrow> int \<Rightarrow> bool \<Rightarrow> pool" where
  "evictIfFull MAX_BROWSERS p t_check closes_ok =
     (if int (length p) \<ge> MAX_BROWSERS
      then (let oldestId = fst (findOldest p ([], t_check))
            in if oldestId \<noteq> [] then snd (closeBrowser p oldestId closes_ok) else p)
      else p)"

definition createBrowser ::
  "int \<Rightarrow> pool \<Rightarrow> int \<Rightarrow> bool \<Rightarrow> pool_error + string \<Rightarrow> int \<Rightarrow> string \<Rightarrow> int \<Rightarrow> int
     \<Rightarrow> (pool_error + string) \<times> pool" where
  "createBrowser MAX_BROWSERS p t_check closes_ok launched t_store initialUrl vw vh =
     (let p1 = evictIfFull MAX_BROWSERS p t_check closes_ok
      in case launched of
           Inl e \<Rightarrow> (Inl e, p1)
         | Inr ident \<Rightarrow>
             (Inr ident,
              AList.update ident
                \<lparr>instance_id = ident, url = initialUrl, instance_lastActivity = t_store,
                 viewportWidth = vw, viewportHeight = vh\<rparr> p1))"

definition getActiveBrowserCount :: "pool \<Rightarrow> nat" where
  "getActiveBrowserCount p = length p"

definition getActiveBrowserIds :: "pool \<Rightarrow> string list" where
  "getActiveBrowserIds p = map fst p"


text \<open>
  A run of pool calls, each with the inputs it meets; the result is the pool after the
  last call.
\<close>

datatype pool_call =
  Create int bool "pool_error + string" int string int int
| Close string bool

fun pool_step :: "int \<Rightarrow> pool \<Rightarrow> pool_call \<Rightarrow> pool" where
  "pool_step MAX_BROWSERS p (Create t_check closes_ok launched t_store u vw vh) =
     snd (createBrowser MAX_BROWSERS p t_check closes_ok launched t_store u vw vh)"
| "pool_step MAX_BROWSERS p (Close ident closes_ok) = snd (closeBrowser p ident closes_ok)"

definition pool_run :: "int \<Rightarrow> pool_call list \<Rightarrow> pool" where
  "pool_run MAX_BROWSERS calls = foldl (pool_step MAX_BROWSERS) [] calls"

section \<open>Device profiles (utils/deviceProfiles)\<close>

datatype DeviceType = DESKTOP | TABLET | MOBILE | TV | UNKNOWN

fun deviceTypeString :: "DeviceType \<Rightarrow> string" where
  "deviceTypeString DESKTOP = ''desktop''"
| "deviceTypeString TABLET = ''tablet''"
| "deviceTypeString MOBILE = ''mobile''"
| "deviceTypeString TV = ''tv''"
| "deviceTypeString UNKNOWN = ''unknown''"

record calculated_settings =
  calc_fps :: real
  calc_quality :: real
  calc_adaptiveBitrate :: bool
  calc_keyframeInterval :: nat

text \<open>\<^verbatim>\<open>calculateStreamSettings(connectionSpeed, deviceType)\<close>: a \<^verbatim>\<open>switch\<close> with no default
  case, then the device adjustment.\<close>

definition calculateStreamSettings :: "string \<Rightarrow> DeviceType \<Rightarrow> calculated_settings" where
  "calculateStreamSettings connectionSpeed deviceType =
     (let settings0 = \<lparr>calc_fps = 30, calc_quality = 80, calc_adaptiveBitrate = True,
                       calc_keyframeInterval = 10\<rparr>;
          settings =
            (if connectionSpeed = ''slow''
             then settings0\<lparr>calc_fps := 15, calc_quality := 60, calc_keyframeInterval := 15\<rparr>
             else if connectionSpeed = ''medium''
             then settings0\<lparr>calc_fps := 24, calc_quality := 75, calc_keyframeInterval := 10\<rparr>
             else if connectionSpeed = ''fast''
             then settings0\<lparr>calc_fps := 30, calc_quality := 85, calc_keyframeInterval := 8\<rparr>
             else settings0)
      in if deviceType = MOBILE
         then settings\<lparr>calc_fps := min (calc_fps settings) 24,
                        calc_quality := calc_quality settings - 5\<rparr>
         else if deviceType = DESKTOP
         then (if connectionSpeed = ''fast'' then settings\<lparr>calc_fps := 60\<rparr> else settings)
         else settings)"

section \<open>Streaming service (dist/services/streamingService.js)\<close>

text \<open>
  The handlers apply \<^verbatim>\<open>Math.min\<close>, \<^verbatim>\<open>Math.max\<close>, comparisons and \<^verbatim>\<open>||\<close> to the \<open>fps\<close> and
  \<open>quality\<close> fields of a message without checking their type. A field is therefore a
  \<open>js_value\<close>: a number, or a value that is not a number and that \<^verbatim>\<open>ToNumber\<close> maps to
  \<^verbatim>\<open>NaN\<close> (a string such as \<^verbatim>\<open>'abc'\<close>, an object); an absent field (\<^verbatim>\<open>undefined\<close>) is
  \<open>None\<close>. The \<open>fps\<close> and \<open>quality\<close> of a stream are JavaScript numbers, \<open>js_number\<close>: a
  finite value, taken as a \<open>real\<close> (the arithmetic of the source on them is exact on the
  integers a client's sliders send), or \<^verbatim>\<open>NaN\<close>. The operations on them follow
  JavaScript: arithmetic, \<^verbatim>\<open>Math.min\<close> and \<^verbatim>\<open>Math.max\<close> return \<^verbatim>\<open>NaN\<close> when an argument is
  \<^verbatim>\<open>NaN\<close>, every comparison with \<^verbatim>\<open>NaN\<close> is false, and \<^verbatim>\<open>NaN !== x\<close> is true. The fields
  \<open>width\<close>, \<open>height\<close> and \<open>latency\<close> are taken as finite numbers. Clock readings are
  integers (milliseconds), counters are natural numbers.
\<close>

datatype js_number = Finite real | NaN

datatype js_value = JNumber real | JNonNumeric

fun ToNumber :: "js_value \<Rightarrow> js_number" where
  "ToNumber (JNumber r) = Finite r"
| "ToNumber JNonNumeric = NaN"

fun truthy :: "js_value \<Rightarrow> bool" where
  "truthy (JNumber r) = (r \<noteq> 0)"
| "truthy JNonNumeric = True"

fun Math_max :: "js_number \<Rightarrow> js_number \<Rightarrow> js_number" where
  "Math_max (Finite a) (Finite b) = Finite (max a b)"
| "Math_max (Finite a) NaN = NaN"
| "Math_max NaN b = NaN"

fun Math_min :: "js_number \<Rightarrow> js_number \<Rightarrow> js_number" where
  "Math_min (Finite a) (Finite b) = Finite (min a b)"
| "Math_min (Finite a) NaN = NaN"
| "Math_min NaN b = NaN"

fun js_add :: "js_number \<Rightarrow> js_number \<Rightarrow> js_number" where
  "js_add (Finite a) (Finite b) = Finite (a + b)"
| "js_add (Finite a) NaN = NaN"
| "js_add NaN b = NaN"

fun js_sub :: "js_number \<Rightarrow> js_number \<Rightarrow> js_number" where
  "js_sub (Finite a) (Finite b) = Finite (a - b)"
| "js_sub (Finite a) NaN = NaN"
| "js_sub NaN b = NaN"

fun js_mul :: "js_number \<Rightarrow> js_number \<Rightarrow> js_number" where
  "js_mul (Finite a) (Finite b) = Finite (a * b)"
| "js_mul (Finite a) NaN = NaN"
| "js_mul NaN b = NaN"

text \<open>Division is used once, for \<^verbatim>\<open>1000 / settings.fps\<close>; \<open>fps\<close> is never 0 after
  \<^verbatim>\<open>initializeStream\<close> (it is at least 5, or \<^verbatim>\<open>NaN\<close>).\<close>

fun js_div :: "js_number \<Rightarrow> js_number \<Rightarrow> js_number" where
  "js_div (Finite a) (Finite b) = Finite (a / b)"
| "js_div (Finite a) NaN = NaN"
| "js_div NaN b = NaN"

text \<open>\<^verbatim>\<open>a < b\<close>, \<^verbatim>\<open>a > b\<close> and \<^verbatim>\<open>a !== b\<close> on numbers.\<close>

fun js_less :: "js_number \<Rightarrow> js_number \<Rightarrow> bool" where
  "js_less (Finite a) (Finite b) = (a < b)"
| "js_less (Finite a) NaN = False"
| "js_less NaN b = False"

definition js_greater :: "js_number \<Rightarrow> js_number \<Rightarrow> bool" where
  "js_greater a b = js_less b a"

fun strict_neq :: "js_number \<Rightarrow> js_number \<Rightarrow> bool" where
  "strict_neq (Finite a) (Finite b) = (a \<noteq> b)"
| "strict_neq (Finite a) NaN = True"
| "strict_neq NaN b = True"

definition DEFAULT_FPS :: real where "DEFAULT_FPS = 30"
definition MIN_FPS :: real where "MIN_FPS = 5"
definition MAX_FPS :: real where "MAX_FPS = 60"
definition KEYFRAME_INTERVAL :: nat where "KEYFRAME_INTERVAL = 10"
definition MIN_QUALITY :: real where "MIN_QUALITY = 20"
definition MAX_QUALITY :: real where "MAX_QUALITY = 95"
definition DEFAULT_QUALITY :: real where "DEFAULT_QUALITY = 80"
definition LATENCY_THRESHOLD_HIGH :: real where "LATENCY_THRESHOLD_HIGH = 200"
definition LATENCY_THRESHOLD_MEDIUM :: real where "LATENCY_THRESHOLD_MEDIUM = 100"

lemmas stream_constants =
  DEFAULT_FPS_def MIN_FPS_def MAX_FPS_def KEYFRAME_INTERVAL_def MIN_QUALITY_def
  MAX_QUALITY_def DEFAULT_QUALITY_def LATENCY_THRESHOLD_HIGH_def LATENCY_THRESHOLD_MEDIUM_def

text \<open>JavaScript \<^verbatim>\<open>x || d\<close> on an optional field value with a number as default, on an
  optional number and on an optional string: the falsy values are an absent field, 0 and
  the empty string.\<close>

definition value_or :: "js_value option \<Rightarrow> real \<Rightarrow> js_value" where
  "value_or x d = (case x of None \<Rightarrow> JNumber d | Some v \<Rightarrow> if truthy v then v else JNumber d)"

definition num_or :: "real option \<Rightarrow> real \<Rightarrow> real" where
  "num_or x d = (case x of None \<Rightarrow> d | Some v \<Rightarrow> if v = 0 then d else v)"

definition str_or :: "string option \<Rightarrow> string \<Rightarrow> string" where
  "str_or x d = (case x of None \<Rightarrow> d | Some v \<Rightarrow> if v = [] then d else v)"

record initial_settings =
  init_fps :: "js_value option"
  init_quality :: "js_value option"
  init_width :: "real option"
  init_height :: "real option"
  init_adaptiveBitrate :: "bool option"
  init_connectionQuality :: "string option"

record stream_settings =
  browserId :: string
  fps :: js_number
  quality :: js_number
  width :: real
  height :: real
  active :: bool
  adaptiveBitrate :: bool
  lastFrameTime :: int
  frameCount :: nat
  bytesSent :: nat
  keyframeCount :: nat
  lastFullFrame :: "string option"
  previousFrame :: "string option"
  connectionQuality :: string
  deviceType :: string
  sessionId :: "string option"
  latency :: "real option"

text \<open>
  The settings object built by \<^verbatim>\<open>initializeStream(socket, browserId, initialSettings)\<close>.
  \<open>dt\<close> is the result of \<^verbatim>\<open>detectDeviceType\<close> on the socket's user agent, \<open>resolution\<close> the
  result of \<^verbatim>\<open>getOptimalResolution\<close>, \<open>sid\<close> the id of the socket's session if it has one,
  \<open>now\<close> the clock.
\<close>

definition newStreamSettings ::
  "string \<Rightarrow> initial_settings \<Rightarrow> DeviceType \<Rightarrow> real \<times> real \<Rightarrow> string option \<Rightarrow> int
     \<Rightarrow> stream_settings" where
  "newStreamSettings bid initialSettings dt resolution sid now =
     (let connQuality = str_or (init_connectionQuality initialSettings) ''medium'';
          streamSettings = calculateStreamSettings connQuality dt;
          fps0 = value_or (init_fps initialSettings) (calc_fps streamSettings);
          quality0 = value_or (init_quality initialSettings) (calc_quality streamSettings);
          adaptive = (case init_adaptiveBitrate initialSettings of
                        Some a \<Rightarrow> a | None \<Rightarrow> calc_adaptiveBitrate streamSettings)
      in \<lparr>browserId = bid,
          fps = Math_min (Finite MAX_FPS) (Math_max (Finite MIN_FPS) (ToNumber fps0)),
          quality = Math_min (Finite MAX_QUALITY) (Math_max (Finite MIN_QUALITY) (ToNumber quality0)),
          width = fst resolution,
          height = snd resolution,
          active = True,
          adaptiveBitrate = adaptive,
          lastFrameTime = now,
          frameCount = 0,
          bytesSent = 0,
          keyframeCount = 0,
          lastFullFrame = None,
          previousFrame = None,
          connectionQuality = connQuality,
          deviceType = deviceTypeString dt,
          sessionId = sid,
          latency = None\<rparr>)"

record settings_msg =
  msg_fps :: "js_value option"
  msg_quality :: "js_value option"
  msg_width :: "real option"
  msg_height :: "real option"
  msg_adaptiveBitrate :: "bool option"
  msg_connectionQuality :: "string option"

text \<open>
  The \<^verbatim>\<open>stream-settings\<close> listener on the current settings object: five guarded
  updates, one after the other, each written here as a function of its own, and then the
  reset of \<open>keyframeCount\<close>. The \<^verbatim>\<open>changes\<close> record of the source only feeds the log line
  and is left out; the assignments it guards are kept as written.
\<close>

definition updateFps :: "stream_settings \<Rightarrow> js_value option \<Rightarrow> stream_settings" where
  "updateFps currentSettings x =
     (case x of
        None \<Rightarrow> currentSettings
      | Some f \<Rightarrow>
          (let newFps = Math_max (Finite MIN_FPS) (Math_min (Finite MAX_FPS) (ToNumber f))
           in if strict_neq newFps (fps currentSettings)
              then currentSettings\<lparr>fps := newFps\<rparr> else currentSettings))"

definition updateQuality :: "stream_settings \<Rightarrow> js_value option \<Rightarrow> stream_settings" where
  "updateQuality currentSettings x =
     (case x of
        None \<Rightarrow> currentSettings
      | Some q \<Rightarrow>
          (let newQuality = Math_max (Finite MIN_QUALITY) (Math_min (Finite MAX_QUALITY) (ToNumber q))
           in if strict_neq newQuality (quality currentSettings)
              then currentSettings\<lparr>quality := newQuality\<rparr> else currentSettings))"

definition updateResolution ::
  "stream_settings \<Rightarrow> real option \<Rightarrow> real option \<Rightarrow> stream_settings" where
  "updateResolution currentSettings w h =
     (if w \<noteq> None \<or> h \<noteq> None
      then (let newWidth = num_or w (width currentSettings);
                newHeight = num_or h (height currentSettings)
            in if newWidth \<noteq> width currentSettings \<or> newHeight \<noteq> height currentSettings
               then currentSettings\<lparr>width := newWidth, height := newHeight\<rparr>
               else currentSettings)
      else currentSettings)"

definition updateAdaptiveBitrate :: "stream_settings \<Rightarrow> bool option \<Rightarrow> stream_settings" where
  "updateAdaptiveBitrate currentSettings x =
     (case x of
        None \<Rightarrow> currentSettings
      | Some a \<Rightarrow>
          if a \<noteq> adaptiveBitrate currentSettings
          then currentSettings\<lparr>adaptiveBitrate := a\<rparr> else currentSettings)"

definition updateConnectionQuality :: "stream_settings \<Rightarrow> string option \<Rightarrow> stream_settings" where
  "updateConnectionQuality currentSettings x =
     (case x of
        None \<Rightarrow> currentSettings
      | Some c \<Rightarrow>
          if c \<noteq> connectionQuality currentSettings
          then currentSettings\<lparr>connectionQuality := c\<rparr> else currentSettings)"

definition streamSettingsHandler :: "stream_settings \<Rightarrow> settings_msg \<Rightarrow> stream_settings" where
  "streamSettingsHandler currentSettings m =
     (updateConnectionQuality
        (updateAdaptiveBitrate
           (updateResolution
              (updateQuality (updateFps currentSettings (msg_fps m)) (msg_quality m))
              (msg_width m) (msg_height m))
           (msg_adaptiveBitrate m))
        (msg_connectionQuality m))\<lparr>keyframeCount := 0\<rparr>"

text \<open>\<^verbatim>\<open>adjustQualityBasedOnLatency(settings)\<close>.\<close>

definition adjustQualityBasedOnLatency :: "stream_settings \<Rightarrow> stream_settings" where
  "adjustQualityBasedOnLatency settings =
     (case latency settings of
        None \<Rightarrow> settings
      | Some l \<Rightarrow>
          if l = 0 then settings
          else if l > LATENCY_THRESHOLD_HIGH then
            (let s1 = (if js_greater (quality settings) (Finite (MIN_QUALITY + 10))
                       then settings\<lparr>quality :=
                              Math_max (Finite MIN_QUALITY) (js_sub (quality settings) (Finite 5))\<rparr>
                       else settings)
             in if js_greater (fps s1) (Finite (MIN_FPS + 5))
                then s1\<lparr>fps := Math_max (Finite MIN_FPS) (js_sub (fps s1) (Finite 2))\<rparr> else s1)
          else if l > LATENCY_THRESHOLD_MEDIUM then
            (if js_greater (quality settings) (Finite (MIN_QUALITY + 5))
             then settings\<lparr>quality :=
                    Math_max (Finite MIN_QUALITY) (js_sub (quality settings) (Finite 2))\<rparr>
             else settings)
          else
            (let s1 = (if js_less (quality settings) (Finite DEFAULT_QUALITY)
                       then settings\<lparr>quality :=
                              Math_min (Finite MAX_QUALITY) (js_add (quality settings) (Finite 1))\<rparr>
                       else settings)
             in if js_less (fps s1) (Finite DEFAULT_FPS)
                then s1\<lparr>fps := Math_min (Finite DEFAULT_FPS) (js_add (fps s1) (Finite 1))\<rparr>
                else s1))"

text \<open>The \<^verbatim>\<open>latency-report\<close> listener; the argument is \<^verbatim>\<open>data.latency\<close>.\<close>

definition latencyReportHandler :: "stream_settings \<Rightarrow> real option \<Rightarrow> stream_settings" where
  "latencyReportHandler settings l =
     (let s1 = settings\<lparr>latency := l\<rparr>
      in if adaptiveBitrate s1 \<and> (case latency s1 of None \<Rightarrow> False | Some v \<Rightarrow> v \<noteq> 0)
         then adjustQualityBasedOnLatency s1 else s1)"

subsection \<open>The frame loop\<close>

text \<open>
  \<^verbatim>\<open>startStreamLoop(socket, settings)\<close> creates a closure with its own flag
  \<^verbatim>\<open>isStreaming\<close> and calls \<^verbatim>\<open>getNextFrame\<close>, which reschedules itself with \<^verbatim>\<open>setTimeout\<close>.
  One call of \<^verbatim>\<open>getNextFrame\<close> has two parts, separated by the \<^verbatim>\<open>await\<close> of the screenshot:
  \<open>getNextFrame_begin\<close> runs up to the call of \<^verbatim>\<open>getScreenshot\<close>, \<open>getNextFrame_end\<close> from
  its result on. \<open>compressBase64\<close> (utils/compression, built on the pako library) is a
  parameter: it returns the compressed text, or None when it throws.
\<close>

record frame =
  image :: string
  isKeyframe :: bool
  frame_quality :: js_number
  timestamp :: int

record pending_frame =
  pf_now :: int
  pf_isKeyframe :: bool
  pf_quality :: js_number

record tick_result =
  tr_settings :: stream_settings
  tr_isStreaming :: bool
  tr_frame :: "frame option"
  tr_timer :: "js_number option"
  tr_logged :: bool

text \<open>None: the call returned at once (\<^verbatim>\<open>!isStreaming || !settings.active\<close>), scheduling
  nothing.\<close>

definition getNextFrame_begin ::
  "bool \<Rightarrow> stream_settings \<Rightarrow> int \<Rightarrow> (stream_settings \<times> pending_frame) option" where
  "getNextFrame_begin isStreaming settings now =
     (if \<not> isStreaming \<or> \<not> active settings then None
      else
        (let elapsed = now - lastFrameTime settings;
             s1 = (if adaptiveBitrate settings \<and> elapsed > 0
                   then (let currentFps = Finite (1000 / real_of_int elapsed)
                         in if js_less currentFps (js_mul (fps settings) (Finite (9 / 10)))
                               \<and> js_greater (quality settings) (Finite 20)
                            then settings\<lparr>quality :=
                                   Math_max (Finite 20) (js_sub (quality settings) (Finite 5))\<rparr>
                            else if js_greater currentFps (js_mul (fps settings) (Finite (11 / 10)))
                                    \<and> js_less (quality settings) (Finite 95)
                            then settings\<lparr>quality :=
                                   Math_min (Finite 95) (js_add (quality settings) (Finite 2))\<rparr>
                            else settings)
                   else settings);
             keyframe = (keyframeCount s1 mod KEYFRAME_INTERVAL = 0);
             s2 = s1\<lparr>keyframeCount := keyframeCount s1 + 1\<rparr>
         in Some (s2, \<lparr>pf_now = now, pf_isKeyframe = keyframe, pf_quality = quality s2\<rparr>)))"

text \<open>The time to the next frame and the \<^verbatim>\<open>setTimeout\<close>; \<open>now2\<close> is the second clock
  reading of the call.\<close>

definition scheduleNext ::
  "bool \<Rightarrow> stream_settings \<Rightarrow> pending_frame \<Rightarrow> frame option \<Rightarrow> int \<Rightarrow> tick_result" where
  "scheduleNext isStreaming settings pf fr now2 =
     (let processingTime = now2 - pf_now pf;
          targetInterval = js_div (Finite 1000) (fps settings);
          nextFrameTime = Math_max (Finite 1)
                            (js_sub targetInterval (Finite (real_of_int processingTime)))
      in \<lparr>tr_settings = settings, tr_isStreaming = isStreaming, tr_frame = fr,
          tr_timer = Some nextFrameTime, tr_logged = False\<rparr>)"

text \<open>
  \<open>screenshot\<close> is what \<^verbatim>\<open>getScreenshot\<close> resolved to (None for \<^verbatim>\<open>null\<close>); \<^verbatim>\<open>if (screenshot)\<close>
  also rejects the empty string. An exception of \<^verbatim>\<open>compressBase64\<close> reaches the \<^verbatim>\<open>catch\<close>:
  it is logged, the flag is cleared and nothing is scheduled. \<open>isStreaming\<close> is the flag of
  the closure when the screenshot arrives; this part of the call does not read it.
\<close>

definition getNextFrame_end ::
  "(string \<Rightarrow> string option) \<Rightarrow> bool \<Rightarrow> stream_settings \<Rightarrow> pending_frame
     \<Rightarrow> string option \<Rightarrow> int \<Rightarrow> tick_result" where
  "getNextFrame_end compressBase64 isStreaming settings pf screenshot now2 =
     (case (case screenshot of None \<Rightarrow> None | Some sh \<Rightarrow> if sh = [] then None else Some sh) of
        None \<Rightarrow> scheduleNext isStreaming settings pf None now2
      | Some sh \<Rightarrow>
          (let s1 = settings\<lparr>frameCount := frameCount settings + 1, lastFrameTime := pf_now pf\<rparr>
           in case compressBase64 sh of
                None \<Rightarrow>
                  \<lparr>tr_settings = s1, tr_isStreaming = False, tr_frame = None,
                   tr_timer = None, tr_logged = True\<rparr>
              | Some compressedFrame \<Rightarrow>
                  (let s2 = (if pf_isKeyframe pf
                             then s1\<lparr>lastFullFrame := Some sh,
                                     bytesSent := bytesSent s1 + length compressedFrame\<rparr>
                             else s1\<lparr>bytesSent := bytesSent s1 + length compressedFrame\<rparr>);
                       fr = \<lparr>image = compressedFrame, isKeyframe = pf_isKeyframe pf,
                             frame_quality = quality s2, timestamp = pf_now pf\<rparr>;
                       s3 = s2\<lparr>previousFrame := Some sh\<rparr>
                   in scheduleNext isStreaming s3 pf (Some fr) now2)))"

text \<open>One whole call of \<^verbatim>\<open>getNextFrame\<close>, with no other listener running during the
  \<^verbatim>\<open>await\<close>.\<close>

definition getNextFrame ::
  "(string \<Rightarrow> string option) \<Rightarrow> bool \<Rightarrow> stream_settings \<Rightarrow> int \<Rightarrow> string option \<Rightarrow> int
     \<Rightarrow> tick_result" where
  "getNextFrame compressBase64 isStreaming settings now screenshot now2 =
     (case getNextFrame_begin isStreaming settings now of
        None \<Rightarrow>
          \<lparr>tr_settings = settings, tr_isStreaming = isStreaming, tr_frame = None,
           tr_timer = None, tr_logged = False\<rparr>
      | Some (s', pf) \<Rightarrow> getNextFrame_end compressBase64 isStreaming s' pf screenshot now2)"

text \<open>
  The loop as the sequence of its timer callbacks: each element of the list gives the
  clock readings and the screenshot outcome of one call. The result is the frames
  emitted, the settings, the flag, and whether a next call is still scheduled.
\<close>

record tick_input =
  ti_now :: int
  ti_screenshot :: "string option"
  ti_now2 :: int

fun streamLoop ::
  "(string \<Rightarrow> string option) \<Rightarrow> bool \<Rightarrow> stream_settings \<Rightarrow> tick_input list
     \<Rightarrow> frame list \<times> stream_settings \<times> bool \<times> bool" where
  "streamLoop compressBase64 isStreaming settings [] = ([], settings, isStreaming, True)"
| "streamLoop compressBase64 isStreaming settings (i # rest) =
     (let r = getNextFrame compressBase64 isStreaming settings
                (ti_now i) (ti_screenshot i) (ti_now2 i);
          emitted = (case tr_frame r of None \<Rightarrow> [] | Some f \<Rightarrow> [f])
      in case tr_timer r of
           None \<Rightarrow> (emitted, tr_settings r, tr_isStreaming r, False)
         | Some delay \<Rightarrow>
             (case streamLoop compressBase64 (tr_isStreaming r) (tr_settings r) rest of
                (frames, s', flag, scheduled) \<Rightarrow> (emitted @ frames, s', flag, scheduled)))"

text \<open>The events that change the settings of one running stream, for the bounds on
  \<open>fps\<close> and \<open>quality\<close>.\<close>

datatype stream_event =
  SettingsUpdate settings_msg
| LatencyReport "real option"
| FrameTick tick_input

fun stream_step ::
  "(string \<Rightarrow> string option) \<Rightarrow> stream_settings \<Rightarrow> stream_event \<Rightarrow> stream_settings" where
  "stream_step compressBase64 s (SettingsUpdate m) = streamSettingsHandler s m"
| "stream_step compressBase64 s (LatencyReport l) = latencyReportHandler s l"
| "stream_step compressBase64 s (FrameTick i) =
     tr_settings (getNextFrame compressBase64 True s (ti_now i) (ti_screenshot i) (ti_now2 i))"

text \<open>A field is numeric when it is absent or carries a number; an event is numeric when
  the \<open>fps\<close> and \<open>quality\<close> of its settings message are.\<close>

definition numeric :: "js_value option \<Rightarrow> bool" where
  "numeric x = (case x of None \<Rightarrow> True | Some (JNumber r) \<Rightarrow> True | Some JNonNumeric \<Rightarrow> False)"

fun numeric_event :: "stream_event \<Rightarrow> bool" where
  "numeric_event (SettingsUpdate m) = (numeric (msg_fps m) \<and> numeric (msg_quality m))"
| "numeric_event (LatencyReport l) = True"
| "numeric_event (FrameTick i) = True"

text \<open>A number is within bounds when it is finite and in the interval; \<^verbatim>\<open>NaN\<close> is in no
  interval.\<close>

fun in_range :: "real \<Rightarrow> real \<Rightarrow> js_number \<Rightarrow> bool" where
  "in_range lo hi (Finite r) = (lo \<le> r \<and> r \<le> hi)"
| "in_range lo hi NaN = False"

definition fps_quality_in_bounds :: "stream_settings \<Rightarrow> bool" where
  "fps_quality_in_bounds s =
     (in_range MIN_FPS MAX_FPS (fps s) \<and> in_range MIN_QUALITY MAX_QUALITY (quality s))"

text \<open>A concrete stream: a desktop client that asks for 30 fps at quality 80 with adaptive
  bitrate, initialised at time 0 for browser \<open>b1\<close>.\<close>

definition settings_80_30 :: stream_settings where
  "settings_80_30 = newStreamSettings ''b1''
     \<lparr>init_fps = Some (JNumber 30), init_quality = Some (JNumber 80), init_width = None,
      init_height = None, init_adaptiveBitrate = Some True, init_connectionQuality = None\<rparr>
     DESKTOP (1920, 1080) None 0"

text \<open>Concrete inputs for the runs below. \<open>sample_codec\<close> stands for \<^verbatim>\<open>compressBase64\<close>: it
  returns its input, and throws on one data URL.\<close>

definition sample_codec :: "string \<Rightarrow> string option" where
  "sample_codec sh = (if sh = ''data:image/jpeg;base64,!'' then None else Some sh)"

text \<open>A timer callback at clock \<open>t\<close> whose screenshot succeeds, and one whose screenshot
  fails; each call takes 5 ms.\<close>

definition ok_tick :: "int \<Rightarrow> tick_input" where
  "ok_tick t = \<lparr>ti_now = t, ti_screenshot = Some ''data:image/jpeg;base64,QUJD'', ti_now2 = t + 5\<rparr>"

definition failed_tick :: "int \<Rightarrow> tick_input" where
  "failed_tick t = \<lparr>ti_now = t, ti_screenshot = None, ti_now2 = t + 5\<rparr>"

text \<open>A desktop client on a connection declared \<^verbatim>\<open>fast\<close>.\<close>

definition settings_fast :: stream_settings where
  "settings_fast = newStreamSettings ''b1''
     \<lparr>init_fps = None, init_quality = None, init_width = None, init_height = None,
      init_adaptiveBitrate = None, init_connectionQuality = Some ''fast''\<rparr>
     DESKTOP (2560, 1440) None 0"


text \<open>The messages \<^verbatim>\<open>stream-settings{quality: 50}\<close>, \<^verbatim>\<open>stream-settings{fps: 'abc'}\<close> and
  \<^verbatim>\<open>stream-settings{quality: 'abc'}\<close>, and an \<^verbatim>\<open>init\<close> message with \<^verbatim>\<open>fps: 'abc'\<close>.\<close>

definition quality_50 :: settings_msg where
  "quality_50 = \<lparr>msg_fps = None, msg_quality = Some (JNumber 50), msg_width = None, msg_height = None,
     msg_adaptiveBitrate = None, msg_connectionQuality = None\<rparr>"

definition fps_abc :: settings_msg where
  "fps_abc = \<lparr>msg_fps = Some JNonNumeric, msg_quality = None, msg_width = None,
     msg_height = None, msg_adaptiveBitrate = None, msg_connectionQuality = None\<rparr>"

definition quality_abc :: settings_msg where
  "quality_abc = \<lparr>msg_fps = None, msg_quality = Some JNonNumeric, msg_width = None,
     msg_height = None, msg_adaptiveBitrate = None, msg_connectionQuality = None\<rparr>"

definition init_fps_abc :: initial_settings where
  "init_fps_abc = \<lparr>init_fps = Some JNonNumeric, init_quality = None, init_width = None,
     init_height = None, init_adaptiveBitrate = None, init_connectionQuality = None\<rparr>"

section \<open>Socket router and stream listeners of one socket (dist/services/socketService.js)\<close>

text \<open>
  The state that the two services keep for one socket id. \<^verbatim>\<open>initializeStream\<close> creates a
  new settings object on every call and \<^verbatim>\<open>startStreamLoop\<close> a new closure that holds a
  reference to the object it was given: the objects are kept in a list and referred to
  by index, so that loops and the \<^verbatim>\<open>clientStreams\<close> entry can share or not share an
  object as in the source. A loop is suspended at the \<^verbatim>\<open>await\<close> of its screenshot, or
  waiting for its timer, or it has returned without scheduling a next call.
  \<open>streamListeners\<close> counts the calls of \<^verbatim>\<open>setupStreamListeners\<close>, each of which registers
  one more listener per message. The browser pool is not part of this state: the
  outcome of \<^verbatim>\<open>createBrowser\<close> is an input of the \<^verbatim>\<open>init\<close> handler.
\<close>

datatype loop_phase = Awaiting pending_frame | Sleeping | Ended

record producer_loop =
  loop_settings :: nat
  loop_isStreaming :: bool
  loop_phase :: loop_phase

record socket_state =
  socketBrowser :: "string option"
  objects :: "stream_settings list"
  clientStream :: "nat option"
  loops :: "producer_loop list"
  streamListeners :: nat

definition socket_connected :: socket_state where
  "socket_connected = \<lparr>socketBrowser = None, objects = [], clientStream = None, loops = [],
     streamListeners = 0\<rparr>"

text \<open>\<^verbatim>\<open>startStreamLoop(socket, settings)\<close> for the object at index \<open>idx\<close>: the new closure and
  the part of its first \<^verbatim>\<open>getNextFrame()\<close> call that runs at once.\<close>

definition startStreamLoop :: "socket_state \<Rightarrow> nat \<Rightarrow> int \<Rightarrow> socket_state" where
  "startStreamLoop st idx now =
     (if idx < length (objects st)
      then (case getNextFrame_begin True (objects st ! idx) now of
              None \<Rightarrow>
                st\<lparr>loops := loops st @
                  [\<lparr>loop_settings = idx, loop_isStreaming = True, loop_phase = Ended\<rparr>]\<rparr>
            | Some (s', pf) \<Rightarrow>
                st\<lparr>objects := (objects st)[idx := s'],
                   loops := loops st @
                  [\<lparr>loop_settings = idx, loop_isStreaming = True, loop_phase = Awaiting pf\<rparr>]\<rparr>)
      else st)"

definition initializeStream ::
  "socket_state \<Rightarrow> string \<Rightarrow> initial_settings \<Rightarrow> DeviceType \<Rightarrow> real \<times> real \<Rightarrow> string option
     \<Rightarrow> int \<Rightarrow> int \<Rightarrow> socket_state" where
  "initializeStream st bid initialSettings dt resolution sid t_init t_loop =
     (let settings = newStreamSettings bid initialSettings dt resolution sid t_init;
          idx = length (objects st);
          st1 = st\<lparr>objects := objects st @ [settings], clientStream := Some idx\<rparr>;
          st2 = startStreamLoop st1 idx t_loop
      in st2\<lparr>streamListeners := streamListeners st2 + 1\<rparr>)"

text \<open>
  The \<^verbatim>\<open>init\<close> handler. \<open>created\<close> is the outcome of \<^verbatim>\<open>createBrowser\<close>, used only when the
  socket has no browser yet; when it throws, the handler answers with the error and
  starts nothing. The handler passes \<open>fps\<close>, \<open>quality\<close>, \<open>width\<close>, \<open>height\<close> and
  \<open>adaptiveBitrate\<close> of the message on, and no connection quality.
\<close>

definition initHandler ::
  "socket_state \<Rightarrow> initial_settings \<Rightarrow> pool_error + string \<Rightarrow> DeviceType \<Rightarrow> real \<times> real
     \<Rightarrow> string option \<Rightarrow> int \<Rightarrow> int \<Rightarrow> socket_state" where
  "initHandler st data created dt resolution sid t_init t_loop =
     (let existing = (case socketBrowser st of
                        None \<Rightarrow> None | Some b \<Rightarrow> if b = [] then None else Some b);
          passed = data\<lparr>init_connectionQuality := None\<rparr>
      in case existing of
           Some bid \<Rightarrow> initializeStream st bid passed dt resolution sid t_init t_loop
         | None \<Rightarrow>
             (case created of
                Inl e \<Rightarrow> st
              | Inr bid \<Rightarrow>
                  initializeStream (st\<lparr>socketBrowser := Some bid\<rparr>) bid passed dt resolution sid
                    t_init t_loop))"

text \<open>One \<^verbatim>\<open>stream-control\<close> listener, and all the registered ones in turn.\<close>

definition streamControlListener :: "socket_state \<Rightarrow> bool \<Rightarrow> int \<Rightarrow> socket_state" where
  "streamControlListener st streaming now =
     (case clientStream st of
        None \<Rightarrow> st
      | Some idx \<Rightarrow>
          if idx < length (objects st)
          then (let settings = objects st ! idx;
                    wasActive = active settings;
                    st1 = st\<lparr>objects := (objects st)[idx := settings\<lparr>active := streaming\<rparr>]\<rparr>
                in if streaming \<and> \<not> wasActive
                   then (if now - lastFrameTime settings > 1000
                         then startStreamLoop st1 idx now else st1)
                   else st1)
          else st)"

definition streamControlHandler :: "socket_state \<Rightarrow> bool \<Rightarrow> int \<Rightarrow> socket_state" where
  "streamControlHandler st streaming now =
     ((\<lambda>s. streamControlListener s streaming now) ^^ streamListeners st) st"

text \<open>The \<^verbatim>\<open>disconnect\<close> listeners: every loop clears its flag, the \<^verbatim>\<open>clientStreams\<close> entry
  and the socket's browser mapping are removed.\<close>

definition disconnectHandler :: "socket_state \<Rightarrow> socket_state" where
  "disconnectHandler st =
     st\<lparr>loops := map (\<lambda>l. l\<lparr>loop_isStreaming := False\<rparr>) (loops st),
        clientStream := None, socketBrowser := None\<rparr>"

text \<open>The timer of loop \<open>i\<close> fires; the screenshot awaited by loop \<open>i\<close> arrives. The second
  returns the frame it emits, if any.\<close>

definition timerFired :: "socket_state \<Rightarrow> nat \<Rightarrow> int \<Rightarrow> socket_state" where
  "timerFired st i now =
     (if i < length (loops st) \<and> loop_phase (loops st ! i) = Sleeping
         \<and> loop_settings (loops st ! i) < length (objects st)
      then (let l = loops st ! i; idx = loop_settings l
            in case getNextFrame_begin (loop_isStreaming l) (objects st ! idx) now of
                 None \<Rightarrow> st\<lparr>loops := (loops st)[i := l\<lparr>loop_phase := Ended\<rparr>]\<rparr>
               | Some (s', pf) \<Rightarrow>
                   st\<lparr>objects := (objects st)[idx := s'],
                      loops := (loops st)[i := l\<lparr>loop_phase := Awaiting pf\<rparr>]\<rparr>)
      else st)"

definition screenshotDone ::
  "(string \<Rightarrow> string option) \<Rightarrow> socket_state \<Rightarrow> nat \<Rightarrow> string option \<Rightarrow> int
     \<Rightarrow> socket_state \<times> frame list" where
  "screenshotDone compressBase64 st i screenshot now2 =
     (if i < length (loops st) \<and> loop_settings (loops st ! i) < length (objects st)
      then (let l = loops st ! i; idx = loop_settings l
            in case loop_phase l of
                 Awaiting pf \<Rightarrow>
                   (let r = getNextFrame_end compressBase64 (loop_isStreaming l)
                              (objects st ! idx) pf screenshot now2
                    in (st\<lparr>objects := (objects st)[idx := tr_settings r],
                           loops := (loops st)[i := l\<lparr>loop_isStreaming := tr_isStreaming r,
                             loop_phase := (if tr_timer r = None then Ended else Sleeping)\<rparr>]\<rparr>,
                        (case tr_frame r of None \<Rightarrow> [] | Some f \<Rightarrow> [f])))
               | Sleeping \<Rightarrow> (st, [])
               | Ended \<Rightarrow> (st, []))
      else (st, []))"

datatype socket_event =
  Init initial_settings "pool_error + string" DeviceType "real \<times> real" "string option" int int
| StreamControl bool int
| Disconnect
| TimerFired nat int
| ScreenshotDone nat "string option" int

fun socket_step ::
  "(string \<Rightarrow> string option) \<Rightarrow> socket_state \<Rightarrow> socket_event \<Rightarrow> socket_state \<times> frame list" where
  "socket_step c st (Init data created dt resolution sid t_init t_loop) =
     (initHandler st data created dt resolution sid t_init t_loop, [])"
| "socket_step c st (StreamControl streaming now) = (streamControlHandler st streaming now, [])"
| "socket_step c st Disconnect = (disconnectHandler st, [])"
| "socket_step c st (TimerFired i now) = (timerFired st i now, [])"
| "socket_step c st (ScreenshotDone i screenshot now2) = screenshotDone c st i screenshot now2"

fun socket_run ::
  "(string \<Rightarrow> string option) \<Rightarrow> socket_state \<Rightarrow> socket_event list \<Rightarrow> socket_state \<times> frame list" where
  "socket_run c st [] = (st, [])"
| "socket_run c st (ev # evs) =
     (case socket_step c st ev of
        (st1, fs1) \<Rightarrow> (case socket_run c st1 evs of (st2, fs2) \<Rightarrow> (st2, fs1 @ fs2)))"

text \<open>A loop is runnable when a call of \<^verbatim>\<open>getNextFrame\<close> is pending for it and that call
  will not return at once: its flag is set and its settings object is active.\<close>

definition runnable :: "socket_state \<Rightarrow> producer_loop \<Rightarrow> bool" where
  "runnable st l =
     (loop_phase l \<noteq> Ended \<and> loop_isStreaming l \<and> loop_settings l < length (objects st)
      \<and> active (objects st ! loop_settings l))"

definition runnableLoops :: "socket_state \<Rightarrow> nat" where
  "runnableLoops st = length (filter (runnable st) (loops st))"

text \<open>The \<^verbatim>\<open>init\<close> message of a client that asks for 30 fps at quality 80.\<close>

definition init_30_80 :: initial_settings where
  "init_30_80 = \<lparr>init_fps = Some (JNumber 30), init_quality = Some (JNumber 80), init_width = None,
     init_height = None, init_adaptiveBitrate = Some True, init_connectionQuality = None\<rparr>"

text \<open>Two \<^verbatim>\<open>init\<close> messages on one socket, at clock 0 and at clock 500; \<^verbatim>\<open>createBrowser\<close> would
  return \<open>b1\<close> for the first and \<open>b2\<close> for the second.\<close>

definition two_inits :: "socket_event list" where
  "two_inits = [Init init_30_80 (Inr ''b1'') DESKTOP (1920, 1080) None 0 0,
                Init init_30_80 (Inr ''b2'') DESKTOP (1920, 1080) None 500 500]"

section \<open>Session service: results\<close>

lemma getSession_Some:
  assumes "getSession st k now = (Some s', st')"
  shows "\<exists>key s. sessions st key = Some s \<and> s' = s\<lparr>lastActivity := now\<rparr>
           \<and> st' = st\<lparr>sessions := (sessions st)(key \<mapsto> s')\<rparr>"
  using assms unfolding getSession_def Let_def
  by (auto split: option.splits)

lemma validateSession_Some:
  assumes "validateSession st tok t_get t_now = (Some s', st')"
  shows "getSession st tok t_get = (Some s', st')"
  using assms unfolding validateSession_def Let_def
  by (auto split: option.splits prod.splits if_splits)

text \<open>
  C10. Every successful lookup through \<^verbatim>\<open>getSession\<close>, by id or by token, returns the
  stored session with \<open>lastActivity\<close> set to the clock reading of the lookup and every
  other field as stored; the store changes only at that session's entry, and the token
  index is untouched. A session returned by \<^verbatim>\<open>validateSession\<close> is the result of such a
  lookup, so its \<open>lastActivity\<close> is the time it was read.
\<close>

theorem getSession_touches_lastActivity_only:
  "(getSession st k now = (Some s', st') \<longrightarrow>
      (\<exists>key s. sessions st key = Some s \<and> s' = s\<lparr>lastActivity := now\<rparr>
         \<and> lastActivity s' = now
         \<and> st' = st\<lparr>sessions := (sessions st)(key \<mapsto> s')\<rparr>
         \<and> tokenToSessionMap st' = tokenToSessionMap st))
   \<and> (validateSession st k t_get t_now = (Some s', st') \<longrightarrow>
      (\<exists>key s. sessions st key = Some s \<and> s' = s\<lparr>lastActivity := t_get\<rparr>
         \<and> lastActivity s' = t_get
         \<and> st' = st\<lparr>sessions := (sessions st)(key \<mapsto> s')\<rparr>
         \<and> tokenToSessionMap st' = tokenToSessionMap st))"
proof (intro conjI impI)
  assume "getSession st k now = (Some s', st')"
  from getSession_Some [OF this] obtain key s where
    h: "sessions st key = Some s" "s' = s\<lparr>lastActivity := now\<rparr>"
       "st' = st\<lparr>sessions := (sessions st)(key \<mapsto> s')\<rparr>"
    by blast
  have "lastActivity s' = now" "tokenToSessionMap st' = tokenToSessionMap st"
    using h by simp_all
  with h show
    "\<exists>key s. sessions st key = Some s \<and> s' = s\<lparr>lastActivity := now\<rparr>
         \<and> lastActivity s' = now
         \<and> st' = st\<lparr>sessions := (sessions st)(key \<mapsto> s')\<rparr>
         \<and> tokenToSessionMap st' = tokenToSessionMap st"
    by blast
next
  assume "validateSession st k t_get t_now = (Some s', st')"
  from getSession_Some [OF validateSession_Some [OF this]] obtain key s where
    h: "sessions st key = Some s" "s' = s\<lparr>lastActivity := t_get\<rparr>"
       "st' = st\<lparr>sessions := (sessions st)(key \<mapsto> s')\<rparr>"
    by blast
  have "lastActivity s' = t_get" "tokenToSessionMap st' = tokenToSessionMap st"
    using h by simp_all
  with h show
    "\<exists>key s. sessions st key = Some s \<and> s' = s\<lparr>lastActivity := t_get\<rparr>
         \<and> lastActivity s' = t_get
         \<and> st' = st\<lparr>sessions := (sessions st)(key \<mapsto> s')\<rparr>
         \<and> tokenToSessionMap st' = tokenToSessionMap st"
    by blast
qed

theorem getSession_touches_lastActivity_only_witness:
  "getSession store0 ''t1'' 5000 =
     (Some (session0\<lparr>lastActivity := 5000\<rparr>),
      store0\<lparr>sessions := (sessions store0)(''s1'' \<mapsto> session0\<lparr>lastActivity := 5000\<rparr>)\<rparr>)
   \<and> validateSession store0 ''t1'' 5000 5001 =
     (Some (session0\<lparr>lastActivity := 5000\<rparr>),
      store0\<lparr>sessions := (sessions store0)(''s1'' \<mapsto> session0\<lparr>lastActivity := 5000\<rparr>)\<rparr>)
   \<and> (\<exists>key s. sessions store0 key = Some s
         \<and> session0\<lparr>lastActivity := 5000\<rparr> = s\<lparr>lastActivity := 5000\<rparr>
         \<and> tokenToSessionMap (store0\<lparr>sessions := (sessions store0)(''s1'' \<mapsto> session0\<lparr>lastActivity := 5000\<rparr>)\<rparr>)
             = tokenToSessionMap store0)"
proof -
  let ?s' = "session0\<lparr>lastActivity := 5000\<rparr>"
  let ?st' = "store0\<lparr>sessions := (sessions store0)(''s1'' \<mapsto> ?s')\<rparr>"
  have g: "getSession store0 ''t1'' 5000 = (Some ?s', ?st')"
    by (simp add: getSession_def store0_def Let_def)
  have v: "validateSession store0 ''t1'' 5000 5001 = (Some ?s', ?st')"
    by (simp add: validateSession_def g SESSION_TIMEOUT_def Let_def)
  from getSession_touches_lastActivity_only [of store0 "''t1''" 5000 ?s' ?st' 5000 5001] g v
  show ?thesis by blast
qed

text \<open>
  The expiry test of \<^verbatim>\<open>validateSession\<close> compares the clock with the \<open>lastActivity\<close> that
  the lookup has just refreshed: whenever the two clock readings of one call are at most
  \<open>SESSION_TIMEOUT\<close> apart, a session that is found is returned, however long it was idle.
\<close>

lemma validateSession_never_expires:
  assumes "getSession st tok t_get = (Some s, st')" and "t_now - t_get \<le> SESSION_TIMEOUT"
  shows "validateSession st tok t_get t_now = (Some s, st')"
proof -
  from getSession_Some [OF assms(1)] have "lastActivity s = t_get" by auto
  with assms show ?thesis by (simp add: validateSession_def Let_def)
qed

text \<open>
  C4. The claim: a session whose \<open>lastActivity\<close> is more than \<open>SESSION_TIMEOUT\<close> in the
  past when \<^verbatim>\<open>validateSession(token)\<close> is called yields null and is deleted from both
  maps. The code at such an input: the session of \<open>store0\<close> was last active at time 0 and
  is validated three hours later (10800000 ms); the call returns the session, refreshed,
  and both the id entry and the token entry are still in the store.
\<close>

theorem validateSession_keeps_expired_session:
  "10800000 - lastActivity session0 > SESSION_TIMEOUT
   \<and> sessions store0 ''s1'' = Some session0
   \<and> validateSession store0 ''t1'' 10800000 10800000 =
       (Some (session0\<lparr>lastActivity := 10800000\<rparr>),
        store0\<lparr>sessions := (sessions store0)(''s1'' \<mapsto> session0\<lparr>lastActivity := 10800000\<rparr>)\<rparr>)
   \<and> sessions (snd (validateSession store0 ''t1'' 10800000 10800000)) ''s1'' \<noteq> None
   \<and> tokenToSessionMap (snd (validateSession store0 ''t1'' 10800000 10800000)) ''t1'' = Some ''s1''"
  by (simp add: validateSession_def getSession_def store0_def session0_def
      SESSION_TIMEOUT_def Let_def)

section \<open>Browser pool: results\<close>

text \<open>
  The eviction search starts from the current clock reading and compares strictly, so it
  selects an instance only if one was last active before that reading; then it selects
  the least recently active one, and a full pool stays within its capacity.
\<close>

lemma findOldest_none:
  "\<forall>(k, i) \<in> set p. t0 \<le> instance_lastActivity i \<Longrightarrow> findOldest p (k0, t0) = (k0, t0)"
  by (induction p) auto

lemma findOldest_le_acc: "snd (findOldest p (k0, t0)) \<le> t0"
proof (induction p arbitrary: k0 t0)
  case Nil then show ?case by simp
next
  case (Cons a p)
  obtain k i where a: "a = (k, i)" by (cases a)
  show ?case using Cons.IH [of k "instance_lastActivity i"] Cons.IH [of k0 t0]
    by (auto simp: a)
qed

lemma findOldest_lower:
  "(k, i) \<in> set p \<Longrightarrow> snd (findOldest p (k0, t0)) \<le> instance_lastActivity i"
proof (induction p arbitrary: k0 t0)
  case Nil then show ?case by simp
next
  case (Cons a p)
  obtain k' i' where a: "a = (k', i')" by (cases a)
  show ?case
  proof (cases "(k, i) = a")
    case True
    then show ?thesis using findOldest_le_acc [of p k' "instance_lastActivity i'"]
        findOldest_le_acc [of p k0 t0] by (auto simp: a)
  next
    case False
    with Cons.prems have "(k, i) \<in> set p" by simp
    then show ?thesis using Cons.IH by (auto simp: a)
  qed
qed

lemma findOldest_member:
  "\<exists>(k, i) \<in> set p. instance_lastActivity i < t0 \<Longrightarrow>
     \<exists>i. (fst (findOldest p (k0, t0)), i) \<in> set p
        \<and> instance_lastActivity i = snd (findOldest p (k0, t0))"
proof (induction p arbitrary: k0 t0)
  case Nil then show ?case by simp
next
  case (Cons a p)
  obtain k' i' where a: "a = (k', i')" by (cases a)
  show ?case
  proof (cases "instance_lastActivity i' < t0")
    case True
    show ?thesis
    proof (cases "\<exists>(k, i) \<in> set p. instance_lastActivity i < instance_lastActivity i'")
      case True
      from Cons.IH [OF this, of k'] \<open>instance_lastActivity i' < t0\<close> show ?thesis
        by (auto simp: a)
    next
      case False
      then have "\<forall>(k, i) \<in> set p. instance_lastActivity i' \<le> instance_lastActivity i"
        by auto
      from findOldest_none [OF this, of k'] \<open>instance_lastActivity i' < t0\<close> show ?thesis
        by (auto simp: a)
    qed
  next
    case False
    with Cons.prems have "\<exists>(k, i) \<in> set p. instance_lastActivity i < t0"
      by (auto simp: a)
    from Cons.IH [OF this, of k0] False show ?thesis by (auto simp: a)
  qed
qed

lemma length_delete_member:
  "distinct (map fst p) \<Longrightarrow> (k, i) \<in> set p \<Longrightarrow> Suc (length (AList.delete k p)) = length p"
proof (induction p)
  case Nil then show ?case by simp
next
  case (Cons a p)
  show ?case
  proof (cases "fst a = k")
    case True
    with Cons.prems have "k \<notin> fst ` set p" by auto
    then show ?thesis using True by (simp add: AList.delete_id)
  next
    case False
    with Cons show ?thesis by auto
  qed
qed

lemma length_update_le: "length (AList.update k v p) \<le> Suc (length p)"
  by (induction p) auto

lemma createBrowser_capacity_if_older:
  assumes "distinct (map fst p)" and "[] \<notin> fst ` set p"
    and "int (length p) \<le> MAX_BROWSERS" and "1 \<le> MAX_BROWSERS"
    and "\<exists>(k, i) \<in> set p. instance_lastActivity i < t_check"
  shows "int (length (snd (createBrowser MAX_BROWSERS p t_check closes_ok launched t_store u vw vh)))
           \<le> MAX_BROWSERS"
proof -
  let ?p1 = "evictIfFull MAX_BROWSERS p t_check closes_ok"
  have lt: "int (length ?p1) < MAX_BROWSERS"
  proof (cases "int (length p) \<ge> MAX_BROWSERS")
    case True
    from findOldest_member [OF assms(5), of "[]"] obtain i where
      i: "(fst (findOldest p ([], t_check)), i) \<in> set p" by blast
    then have ne: "fst (findOldest p ([], t_check)) \<noteq> []" using assms(2) by force
    from i have "map_of p (fst (findOldest p ([], t_check))) = Some i"
      using assms(1) by simp
    then have "?p1 = AList.delete (fst (findOldest p ([], t_check))) p"
      using True ne by (simp add: evictIfFull_def closeBrowser_def Let_def)
    with length_delete_member [OF assms(1) i] assms(3) show ?thesis by simp
  next
    case False
    then show ?thesis by (simp add: evictIfFull_def)
  qed
  show ?thesis
  proof (cases launched)
    case (Inl e)
    with lt show ?thesis by (simp add: createBrowser_def Let_def)
  next
    case (Inr ident)
    have "length (AList.update ident \<lparr>instance_id = ident, url = u, instance_lastActivity = t_store,
                 viewportWidth = vw, viewportHeight = vh\<rparr> ?p1) \<le> Suc (length ?p1)"
      by (rule length_update_le)
    with lt Inr show ?thesis by (simp add: createBrowser_def Let_def)
  qed
qed

text \<open>
  C1. The claim: after every sequence of create and close calls the pool holds at most
  \<open>MAX_BROWSERS\<close> instances, and a create on a full pool closes exactly the least
  recently active instance first. The code at a sequence of two creates with capacity 1,
  the second one starting in the millisecond in which the first instance was stored
  (clock 1000): the search finds no instance older than its own clock reading, closes
  nothing, and the pool ends with two instances.
\<close>

theorem createBrowser_exceeds_capacity:
  "getActiveBrowserCount (pool_run 1 [Create 0 True (Inr ''a'') 1000 ''u'' 1920 1080]) = 1
   \<and> getActiveBrowserIds (pool_run 1 [Create 0 True (Inr ''a'') 1000 ''u'' 1920 1080,
        Create 1000 True (Inr ''b'') 1600 ''u'' 1920 1080]) = [''a'', ''b'']
   \<and> int (getActiveBrowserCount (pool_run 1 [Create 0 True (Inr ''a'') 1000 ''u'' 1920 1080,
        Create 1000 True (Inr ''b'') 1600 ''u'' 1920 1080])) > 1"
  by (simp add: pool_run_def createBrowser_def evictIfFull_def closeBrowser_def
      getActiveBrowserCount_def getActiveBrowserIds_def Let_def)

section \<open>Streaming service: bounds on fps and quality\<close>

lemma js_greater_simps [simp]:
  "js_greater (Finite a) (Finite b) = (b < a)"
  "js_greater NaN y = False"
  "js_greater x NaN = False"
proof -
  show "js_greater (Finite a) (Finite b) = (b < a)" by (simp add: js_greater_def)
  show "js_greater NaN y = False" by (cases y) (simp_all add: js_greater_def)
  show "js_greater x NaN = False" by (simp add: js_greater_def)
qed

lemma not_strict_neq: "\<not> strict_neq a b \<Longrightarrow> a = b"
  by (cases a; cases b) simp_all

lemma numeric_value_or: "numeric x \<Longrightarrow> \<exists>r. value_or x d = JNumber r"
  by (auto simp: numeric_def value_or_def split: option.splits js_value.splits)

lemma in_range_clamp:
  "lo \<le> hi \<Longrightarrow> in_range lo hi (Math_min (Finite hi) (Math_max (Finite lo) (Finite r)))"
  "lo \<le> hi \<Longrightarrow> in_range lo hi (Math_max (Finite lo) (Math_min (Finite hi) (Finite r)))"
  by simp_all

lemma newStreamSettings_in_bounds:
  assumes "numeric (init_fps init)" "numeric (init_quality init)"
  shows "fps_quality_in_bounds (newStreamSettings bid init dt res sid now)"
proof -
  let ?c = "calculateStreamSettings (str_or (init_connectionQuality init) ''medium'') dt"
  from numeric_value_or [OF assms(1)] obtain f where f: "value_or (init_fps init) (calc_fps ?c) = JNumber f"
    by blast
  from numeric_value_or [OF assms(2)] obtain q where q: "value_or (init_quality init) (calc_quality ?c) = JNumber q"
    by blast
  show ?thesis
    by (simp add: fps_quality_in_bounds_def newStreamSettings_def Let_def f q stream_constants)
qed

lemma update_steps_fps [simp]:
  "fps (updateFps s x) =
     (case x of None \<Rightarrow> fps s
      | Some f \<Rightarrow> Math_max (Finite MIN_FPS) (Math_min (Finite MAX_FPS) (ToNumber f)))"
  "fps (updateQuality s y) = fps s"
  "fps (updateResolution s w h) = fps s"
  "fps (updateAdaptiveBitrate s a) = fps s"
  "fps (updateConnectionQuality s c) = fps s"
  by (auto simp: updateFps_def updateQuality_def updateResolution_def
      updateAdaptiveBitrate_def updateConnectionQuality_def Let_def
      split: option.split dest: not_strict_neq)

lemma update_steps_quality [simp]:
  "quality (updateFps s x) = quality s"
  "quality (updateQuality s y) =
     (case y of None \<Rightarrow> quality s
      | Some q \<Rightarrow> Math_max (Finite MIN_QUALITY) (Math_min (Finite MAX_QUALITY) (ToNumber q)))"
  "quality (updateResolution s w h) = quality s"
  "quality (updateAdaptiveBitrate s a) = quality s"
  "quality (updateConnectionQuality s c) = quality s"
  by (auto simp: updateFps_def updateQuality_def updateResolution_def
      updateAdaptiveBitrate_def updateConnectionQuality_def Let_def
      split: option.split dest: not_strict_neq)

lemma fps_streamSettingsHandler:
  "fps (streamSettingsHandler s m) =
     (case msg_fps m of None \<Rightarrow> fps s
      | Some f \<Rightarrow> Math_max (Finite MIN_FPS) (Math_min (Finite MAX_FPS) (ToNumber f)))"
  by (simp add: streamSettingsHandler_def split: option.split)

lemma quality_streamSettingsHandler:
  "quality (streamSettingsHandler s m) =
     (case msg_quality m of None \<Rightarrow> quality s
      | Some q \<Rightarrow> Math_max (Finite MIN_QUALITY) (Math_min (Finite MAX_QUALITY) (ToNumber q)))"
  by (simp add: streamSettingsHandler_def split: option.split)

lemma keyframeCount_streamSettingsHandler: "keyframeCount (streamSettingsHandler s m) = 0"
  by (simp add: streamSettingsHandler_def)

lemma streamSettingsHandler_in_bounds:
  "fps_quality_in_bounds s \<Longrightarrow> numeric (msg_fps m) \<Longrightarrow> numeric (msg_quality m)
     \<Longrightarrow> fps_quality_in_bounds (streamSettingsHandler s m)"
  by (auto simp: fps_quality_in_bounds_def fps_streamSettingsHandler quality_streamSettingsHandler
      numeric_def stream_constants split: option.splits js_value.splits)

lemma adjustQualityBasedOnLatency_in_bounds:
  "fps_quality_in_bounds s \<Longrightarrow> fps_quality_in_bounds (adjustQualityBasedOnLatency s)"
  by (cases "fps s"; cases "quality s")
    (auto simp: fps_quality_in_bounds_def adjustQualityBasedOnLatency_def Let_def js_greater_def
      stream_constants split: option.splits)

lemma latencyReportHandler_in_bounds:
  "fps_quality_in_bounds s \<Longrightarrow> fps_quality_in_bounds (latencyReportHandler s l)"
proof -
  assume b: "fps_quality_in_bounds s"
  then have "fps_quality_in_bounds (s\<lparr>latency := l\<rparr>)"
    by (simp add: fps_quality_in_bounds_def)
  then show ?thesis
    using adjustQualityBasedOnLatency_in_bounds [of "s\<lparr>latency := l\<rparr>"]
    by (simp add: latencyReportHandler_def Let_def)
qed

lemma getNextFrame_begin_in_bounds:
  "fps_quality_in_bounds s \<Longrightarrow> getNextFrame_begin f s now = Some (s', pf)
     \<Longrightarrow> fps_quality_in_bounds s'"
  by (cases "fps s"; cases "quality s")
    (auto simp: fps_quality_in_bounds_def getNextFrame_begin_def Let_def js_greater_def
      stream_constants split: if_splits)

lemma getNextFrame_end_in_bounds:
  "fps_quality_in_bounds s
     \<Longrightarrow> fps_quality_in_bounds (tr_settings (getNextFrame_end c f s pf shot now2))"
  by (auto simp: fps_quality_in_bounds_def getNextFrame_end_def scheduleNext_def Let_def
      split: option.splits)

lemma getNextFrame_in_bounds:
  "fps_quality_in_bounds s
     \<Longrightarrow> fps_quality_in_bounds (tr_settings (getNextFrame c f s now shot now2))"
  by (auto simp: getNextFrame_def getNextFrame_end_in_bounds
      dest: getNextFrame_begin_in_bounds split: option.splits)

lemma stream_step_in_bounds:
  "fps_quality_in_bounds s \<Longrightarrow> numeric_event ev \<Longrightarrow> fps_quality_in_bounds (stream_step c s ev)"
  by (cases ev)
    (simp_all add: streamSettingsHandler_in_bounds latencyReportHandler_in_bounds
      getNextFrame_in_bounds)

lemma foldl_stream_step_in_bounds:
  "fps_quality_in_bounds s \<Longrightarrow> list_all numeric_event evs
     \<Longrightarrow> fps_quality_in_bounds (foldl (stream_step c) s evs)"
  by (induction evs arbitrary: s) (simp_all add: stream_step_in_bounds)

text \<open>
  When the \<open>fps\<close> and \<open>quality\<close> fields of the \<^verbatim>\<open>init\<close> message and of every stream-settings
  message are numbers or absent, \<open>fps\<close> stays in \<open>[5, 60]\<close> and \<open>quality\<close> in \<open>[20, 95]\<close>
  after initialisation and after every stream-settings update, latency report and frame
  tick.
\<close>

lemma stream_fps_quality_clamped_for_numbers:
  assumes "numeric (init_fps init)" "numeric (init_quality init)" "list_all numeric_event evs"
  shows "in_range 5 60 (fps (foldl (stream_step c) (newStreamSettings bid init dt res sid now) evs))
   \<and> in_range 20 95 (quality (foldl (stream_step c) (newStreamSettings bid init dt res sid now) evs))"
  using foldl_stream_step_in_bounds [OF newStreamSettings_in_bounds [OF assms(1,2)] assms(3),
      of c bid dt res sid now]
  by (simp add: fps_quality_in_bounds_def stream_constants)

text \<open>Once \<open>fps\<close> is \<^verbatim>\<open>NaN\<close>, latency reports and frame ticks leave it so: every comparison
  that guards an adjustment is false.\<close>

lemma nan_stays:
  "fps s = NaN \<Longrightarrow> fps (latencyReportHandler s l) = NaN"
  "fps s = NaN \<Longrightarrow> fps (tr_settings (getNextFrame c f s now shot now2)) = NaN"
  by (auto simp: latencyReportHandler_def adjustQualityBasedOnLatency_def js_greater_def Let_def
      getNextFrame_def getNextFrame_begin_def getNextFrame_end_def scheduleNext_def
      split: option.splits if_splits)

text \<open>
  C6. The claim: after stream initialisation and after every stream-settings update,
  latency report and adaptive per-frame adjustment, \<open>fps\<close> is in \<open>[5, 60]\<close> and \<open>quality\<close>
  in \<open>[20, 95]\<close>. The code on a stream that is within the bounds and receives
  \<^verbatim>\<open>stream-settings{fps: 'abc'}\<close>: \<^verbatim>\<open>Math.max(5, Math.min(60, 'abc'))\<close> is \<^verbatim>\<open>NaN\<close>, which differs
  from the current \<open>fps\<close> and is stored; it is still there after a latency report and a
  frame tick. The same happens to \<open>quality\<close> on \<^verbatim>\<open>stream-settings{quality: 'abc'}\<close>, and to
  the initial \<open>fps\<close> on \<^verbatim>\<open>init{fps: 'abc'}\<close>.
\<close>

theorem stream_settings_nan_escapes_clamp:
  "fps_quality_in_bounds settings_80_30
   \<and> fps (streamSettingsHandler settings_80_30 fps_abc) = NaN
   \<and> \<not> fps_quality_in_bounds (foldl (stream_step sample_codec) settings_80_30
          [SettingsUpdate fps_abc])
   \<and> fps (foldl (stream_step sample_codec) settings_80_30
          [SettingsUpdate fps_abc, LatencyReport (Some 250), FrameTick (ok_tick 33)]) = NaN
   \<and> \<not> fps_quality_in_bounds (foldl (stream_step sample_codec) settings_80_30
          [SettingsUpdate fps_abc, LatencyReport (Some 250), FrameTick (ok_tick 33)])
   \<and> quality (streamSettingsHandler settings_80_30 quality_abc) = NaN
   \<and> \<not> fps_quality_in_bounds (streamSettingsHandler settings_80_30 quality_abc)
   \<and> fps (newStreamSettings ''b1'' init_fps_abc DESKTOP (1920, 1080) None 0) = NaN
   \<and> \<not> fps_quality_in_bounds (newStreamSettings ''b1'' init_fps_abc DESKTOP (1920, 1080) None 0)"
proof -
  have b: "fps_quality_in_bounds settings_80_30"
    by (simp add: fps_quality_in_bounds_def settings_80_30_def newStreamSettings_def value_or_def
        Let_def stream_constants)
  have f: "fps (streamSettingsHandler settings_80_30 fps_abc) = NaN"
    by (simp add: fps_streamSettingsHandler fps_abc_def)
  have q: "quality (streamSettingsHandler settings_80_30 quality_abc) = NaN"
    by (simp add: quality_streamSettingsHandler quality_abc_def)
  have i: "fps (newStreamSettings ''b1'' init_fps_abc DESKTOP (1920, 1080) None 0) = NaN"
    by (simp add: newStreamSettings_def init_fps_abc_def value_or_def Let_def)
  have f3: "fps (foldl (stream_step sample_codec) settings_80_30
          [SettingsUpdate fps_abc, LatencyReport (Some 250), FrameTick (ok_tick 33)]) = NaN"
    using f by (simp add: nan_stays)
  show ?thesis
    using b f q i f3 by (simp add: fps_quality_in_bounds_def)
qed

section \<open>Streaming service: latency reports\<close>

lemma settings_80_30_fields:
  "adaptiveBitrate settings_80_30" "quality settings_80_30 = Finite 80"
  "fps settings_80_30 = Finite 30"
  "active settings_80_30" "keyframeCount settings_80_30 = 0"
  by (simp_all add: settings_80_30_def newStreamSettings_def value_or_def Let_def stream_constants)

lemma latency_high_fields:
  assumes "adaptiveBitrate s" "l > 200"
  shows "quality (latencyReportHandler s (Some l)) =
           (if js_greater (quality s) (Finite 30) then js_sub (quality s) (Finite 5) else quality s)"
    and "fps (latencyReportHandler s (Some l)) =
           (if js_greater (fps s) (Finite 10) then js_sub (fps s) (Finite 2) else fps s)"
    and "adaptiveBitrate (latencyReportHandler s (Some l))"
  using assms
  by (cases "quality s"; cases "fps s";
      simp add: latencyReportHandler_def adjustQualityBasedOnLatency_def Let_def js_greater_def
        stream_constants)+

lemma latency_high_repeat:
  assumes "adaptiveBitrate s" "l > 200"
  shows "adaptiveBitrate (foldl latencyReportHandler s (replicate n (Some l)))
     \<and> quality (foldl latencyReportHandler s (replicate n (Some l)))
          = ((\<lambda>q. if js_greater q (Finite 30) then js_sub q (Finite 5) else q) ^^ n) (quality s)
     \<and> fps (foldl latencyReportHandler s (replicate n (Some l)))
          = ((\<lambda>f. if js_greater f (Finite 10) then js_sub f (Finite 2) else f) ^^ n) (fps s)"
  using assms(1)
proof (induction n arbitrary: s)
  case 0
  then show ?case by simp
next
  case (Suc n)
  have a: "adaptiveBitrate (latencyReportHandler s (Some l))"
    using latency_high_fields(3) [OF Suc.prems assms(2)] .
  show ?case
    using Suc.IH [OF a] latency_high_fields(1,2) [OF Suc.prems assms(2)]
    by (simp add: funpow_Suc_right del: funpow.simps)
qed

lemma quality_floor_fixed: "((\<lambda>q. if js_greater q (Finite 30) then js_sub q (Finite 5) else q) ^^ n) (Finite 30) = Finite 30"
  by (induction n) (simp_all add: js_greater_def)

lemma fps_floor_fixed: "((\<lambda>f. if js_greater f (Finite 10) then js_sub f (Finite 2) else f) ^^ n) (Finite 10) = Finite 10"
  by (induction n) (simp_all add: js_greater_def)

lemma quality_ten_steps: "((\<lambda>q. if js_greater q (Finite 30) then js_sub q (Finite 5) else q) ^^ 10) (Finite 80) = Finite 30"
  by (simp add: eval_nat_numeral js_greater_def)

lemma fps_ten_steps: "((\<lambda>f. if js_greater f (Finite 10) then js_sub f (Finite 2) else f) ^^ 10) (Finite 30) = Finite 10"
  by (simp add: eval_nat_numeral js_greater_def)

lemma latency_high_three:
  assumes "adaptiveBitrate s" and "l > 200" and "quality s = Finite 80" and "fps s = Finite 30"
  shows "quality (foldl latencyReportHandler s (replicate 3 (Some l))) = Finite 65"
    and "fps (foldl latencyReportHandler s (replicate 3 (Some l))) = Finite 24"
proof -
  have q: "((\<lambda>q. if js_greater q (Finite 30) then js_sub q (Finite 5) else q) ^^ 3) (Finite 80) = Finite 65"
    by (simp add: eval_nat_numeral js_greater_def)
  have f: "((\<lambda>f. if js_greater f (Finite 10) then js_sub f (Finite 2) else f) ^^ 3) (Finite 30) = Finite 24"
    by (simp add: eval_nat_numeral js_greater_def)
  from latency_high_repeat [OF assms(1,2), of 3] q f assms(3,4)
  show "quality (foldl latencyReportHandler s (replicate 3 (Some l))) = Finite 65"
    and "fps (foldl latencyReportHandler s (replicate 3 (Some l))) = Finite 24"
    by simp_all
qed

lemma latency_high_limit:
  assumes "adaptiveBitrate s" and "l > 200" and "quality s = Finite 80" and "fps s = Finite 30"
  shows "quality (foldl latencyReportHandler s (replicate (10 + n) (Some l))) = Finite 30"
    and "fps (foldl latencyReportHandler s (replicate (10 + n) (Some l))) = Finite 10"
proof -
  have q: "((\<lambda>q. if js_greater q (Finite 30) then js_sub q (Finite 5) else q) ^^ (10 + n)) (Finite 80) = Finite 30"
    unfolding add.commute [of 10 n] funpow_add o_apply quality_ten_steps
    by (rule quality_floor_fixed)
  have f: "((\<lambda>f. if js_greater f (Finite 10) then js_sub f (Finite 2) else f) ^^ (10 + n)) (Finite 30) = Finite 10"
    unfolding add.commute [of 10 n] funpow_add o_apply fps_ten_steps
    by (rule fps_floor_fixed)
  from latency_high_repeat [OF assms(1,2), of "10 + n"] q f assms(3,4)
  show "quality (foldl latencyReportHandler s (replicate (10 + n) (Some l))) = Finite 30"
    and "fps (foldl latencyReportHandler s (replicate (10 + n) (Some l))) = Finite 10"
    by simp_all
qed

text \<open>
  C8 (amended). With adaptive bitrate on, a report of a latency above 200 ms lowers
  \<open>quality\<close> by 5 only while it is above 30 and \<open>fps\<close> by 2 only while it is above 10;
  otherwise it leaves them as they are. From quality 80 and fps 30, three such reports
  give quality 65 and fps 24, and ten or more give quality 30 and fps 10, where both stay.
\<close>

theorem latency_high_downshift:
  assumes "adaptiveBitrate s" and "l > 200"
  shows "quality (latencyReportHandler s (Some l)) =
           (if js_greater (quality s) (Finite 30) then js_sub (quality s) (Finite 5) else quality s)
     \<and> fps (latencyReportHandler s (Some l)) =
           (if js_greater (fps s) (Finite 10) then js_sub (fps s) (Finite 2) else fps s)
     \<and> (quality s = Finite 80 \<and> fps s = Finite 30 \<longrightarrow>
          quality (foldl latencyReportHandler s (replicate 3 (Some l))) = Finite 65
          \<and> fps (foldl latencyReportHandler s (replicate 3 (Some l))) = Finite 24
          \<and> quality (foldl latencyReportHandler s (replicate (10 + n) (Some l))) = Finite 30
          \<and> fps (foldl latencyReportHandler s (replicate (10 + n) (Some l))) = Finite 10)"
  using latency_high_fields(1,2) [OF assms] latency_high_three [OF assms]
    latency_high_limit [OF assms, of n]
  by blast

theorem latency_high_downshift_witness:
  "adaptiveBitrate settings_80_30 \<and> (250::real) > 200
   \<and> quality settings_80_30 = Finite 80 \<and> fps settings_80_30 = Finite 30
   \<and> quality (latencyReportHandler settings_80_30 (Some 250)) = Finite 75
   \<and> fps (latencyReportHandler settings_80_30 (Some 250)) = Finite 28
   \<and> quality (foldl latencyReportHandler settings_80_30 (replicate 3 (Some 250))) = Finite 65
   \<and> fps (foldl latencyReportHandler settings_80_30 (replicate 3 (Some 250))) = Finite 24
   \<and> quality (foldl latencyReportHandler settings_80_30 (replicate (10 + 5) (Some 250))) = Finite 30
   \<and> fps (foldl latencyReportHandler settings_80_30 (replicate (10 + 5) (Some 250))) = Finite 10"
proof -
  have h: "adaptiveBitrate settings_80_30" "(250::real) > 200"
    by (simp_all add: settings_80_30_fields)
  have d: "quality settings_80_30 = Finite 80 \<and> fps settings_80_30 = Finite 30"
    by (simp add: settings_80_30_fields)
  note t = latency_high_downshift [OF h, of 5]
  have a: "quality (latencyReportHandler settings_80_30 (Some 250)) = Finite 75"
    using t d by simp
  have b: "fps (latencyReportHandler settings_80_30 (Some 250)) = Finite 28"
    using t d by simp
  from t d h a b show ?thesis by blast
qed

text \<open>
  C8 as stated fails: from quality 80 and fps 30, ten reports of latency 250 reach
  quality 30 and fps 10; the eleventh report lowers neither, and a hundred reports still
  leave quality 30 and fps 10, not 20 and 5.
\<close>

theorem latency_high_floor_counterexample:
  "adaptiveBitrate settings_80_30 \<and> quality settings_80_30 = Finite 80 \<and> fps settings_80_30 = Finite 30
   \<and> quality (foldl latencyReportHandler settings_80_30 (replicate 10 (Some 250))) = Finite 30
   \<and> fps (foldl latencyReportHandler settings_80_30 (replicate 10 (Some 250))) = Finite 10
   \<and> quality (foldl latencyReportHandler settings_80_30 (replicate 11 (Some 250))) = Finite 30
   \<and> fps (foldl latencyReportHandler settings_80_30 (replicate 11 (Some 250))) = Finite 10
   \<and> quality (foldl latencyReportHandler settings_80_30 (replicate 100 (Some 250))) = Finite 30
   \<and> fps (foldl latencyReportHandler settings_80_30 (replicate 100 (Some 250))) = Finite 10"
proof -
  have h: "adaptiveBitrate settings_80_30" "(250::real) > 200"
    "quality settings_80_30 = Finite 80" "fps settings_80_30 = Finite 30"
    by (simp_all add: settings_80_30_fields)
  show ?thesis
    using h(1,3,4) latency_high_limit [OF h, of 0] latency_high_limit [OF h, of 1]
      latency_high_limit [OF h, of 90]
    by simp
qed

section \<open>Streaming service: the frame loop\<close>

lemma getNextFrame_begin_active:
  assumes "active s"
  shows "\<exists>s'. getNextFrame_begin True s now =
            Some (s', \<lparr>pf_now = now, pf_isKeyframe = (keyframeCount s mod 10 = 0),
                       pf_quality = quality s'\<rparr>)
          \<and> active s' \<and> keyframeCount s' = Suc (keyframeCount s)
          \<and> connectionQuality s' = connectionQuality s \<and> fps s' = fps s
          \<and> browserId s' = browserId s"
  using assms by (simp add: getNextFrame_begin_def Let_def KEYFRAME_INTERVAL_def)

lemma getNextFrame_begin_stopped:
  "\<not> f \<or> \<not> active s \<Longrightarrow> getNextFrame_begin f s now = None"
  by (simp add: getNextFrame_begin_def)

lemma getNextFrame_end_failed:
  "getNextFrame_end c f s pf None now2 =
     \<lparr>tr_settings = s, tr_isStreaming = f, tr_frame = None,
      tr_timer = Some (Math_max (Finite 1)
                   (js_sub (js_div (Finite 1000) (fps s)) (Finite (real_of_int (now2 - pf_now pf))))), tr_logged = False\<rparr>"
  by (simp add: getNextFrame_end_def scheduleNext_def Let_def)

lemma getNextFrame_end_ok:
  assumes "sh \<noteq> []" "c sh = Some z"
  shows "\<exists>s'. getNextFrame_end c f s pf (Some sh) now2 =
     \<lparr>tr_settings = s', tr_isStreaming = f,
      tr_frame = Some \<lparr>image = z, isKeyframe = pf_isKeyframe pf, frame_quality = quality s,
                       timestamp = pf_now pf\<rparr>,
      tr_timer = Some (Math_max (Finite 1)
                   (js_sub (js_div (Finite 1000) (fps s)) (Finite (real_of_int (now2 - pf_now pf))))), tr_logged = False\<rparr>
     \<and> active s' = active s \<and> keyframeCount s' = keyframeCount s
     \<and> connectionQuality s' = connectionQuality s \<and> quality s' = quality s \<and> fps s' = fps s"
  using assms by (simp add: getNextFrame_end_def scheduleNext_def Let_def)


lemma getNextFrame_failed:
  assumes "active s"
  shows "tr_frame (getNextFrame c True s now None now2) = None"
    and "tr_timer (getNextFrame c True s now None now2) \<noteq> None"
    and "tr_isStreaming (getNextFrame c True s now None now2)"
    and "\<not> tr_logged (getNextFrame c True s now None now2)"
    and "active (tr_settings (getNextFrame c True s now None now2))"
    and "keyframeCount (tr_settings (getNextFrame c True s now None now2)) = Suc (keyframeCount s)"
proof -
  from getNextFrame_begin_active [OF assms, of now] obtain s' where
    b: "getNextFrame_begin True s now =
            Some (s', \<lparr>pf_now = now, pf_isKeyframe = (keyframeCount s mod 10 = 0),
                       pf_quality = quality s'\<rparr>)"
    and s': "active s'" "keyframeCount s' = Suc (keyframeCount s)" by blast
  show "tr_frame (getNextFrame c True s now None now2) = None"
    and "tr_timer (getNextFrame c True s now None now2) \<noteq> None"
    and "tr_isStreaming (getNextFrame c True s now None now2)"
    and "\<not> tr_logged (getNextFrame c True s now None now2)"
    and "active (tr_settings (getNextFrame c True s now None now2))"
    and "keyframeCount (tr_settings (getNextFrame c True s now None now2)) = Suc (keyframeCount s)"
    using s' by (simp_all add: getNextFrame_def b getNextFrame_end_failed)
qed

lemma getNextFrame_ok:
  assumes "active s" "sh \<noteq> []" "c sh = Some z"
  shows "\<exists>q. tr_frame (getNextFrame c True s now (Some sh) now2) =
           Some \<lparr>image = z, isKeyframe = (keyframeCount s mod 10 = 0), frame_quality = q,
                 timestamp = now\<rparr>"
    and "tr_timer (getNextFrame c True s now (Some sh) now2) \<noteq> None"
    and "tr_isStreaming (getNextFrame c True s now (Some sh) now2)"
    and "active (tr_settings (getNextFrame c True s now (Some sh) now2))"
    and "keyframeCount (tr_settings (getNextFrame c True s now (Some sh) now2)) = Suc (keyframeCount s)"
proof -
  from getNextFrame_begin_active [OF assms(1), of now] obtain s' where
    b: "getNextFrame_begin True s now =
            Some (s', \<lparr>pf_now = now, pf_isKeyframe = (keyframeCount s mod 10 = 0),
                       pf_quality = quality s'\<rparr>)"
    and s': "active s'" "keyframeCount s' = Suc (keyframeCount s)" by blast
  let ?pf = "\<lparr>pf_now = now, pf_isKeyframe = (keyframeCount s mod 10 = 0), pf_quality = quality s'\<rparr>"
  from getNextFrame_end_ok [where sh=sh and c=c and z=z and f=True and s=s' and pf="?pf" and ?now2.0=now2, OF assms(2,3)] obtain s'' where
    e: "getNextFrame_end c True s' ?pf (Some sh) now2 =
     \<lparr>tr_settings = s'', tr_isStreaming = True,
      tr_frame = Some \<lparr>image = z, isKeyframe = pf_isKeyframe ?pf, frame_quality = quality s',
                       timestamp = pf_now ?pf\<rparr>,
      tr_timer = Some (Math_max (Finite 1)
                   (js_sub (js_div (Finite 1000) (fps s')) (Finite (real_of_int (now2 - pf_now ?pf))))),
      tr_logged = False\<rparr>"
    and s'': "active s'' = active s'" "keyframeCount s'' = keyframeCount s'" by blast
  have g: "getNextFrame c True s now (Some sh) now2 = getNextFrame_end c True s' ?pf (Some sh) now2"
    by (simp add: getNextFrame_def b)
  show "\<exists>q. tr_frame (getNextFrame c True s now (Some sh) now2) =
           Some \<lparr>image = z, isKeyframe = (keyframeCount s mod 10 = 0), frame_quality = q,
                 timestamp = now\<rparr>"
    unfolding g e by simp
  show "tr_timer (getNextFrame c True s now (Some sh) now2) \<noteq> None"
    and "tr_isStreaming (getNextFrame c True s now (Some sh) now2)"
    and "active (tr_settings (getNextFrame c True s now (Some sh) now2))"
    and "keyframeCount (tr_settings (getNextFrame c True s now (Some sh) now2)) = Suc (keyframeCount s)"
    unfolding g e using s' s'' by simp_all
qed

lemma streamLoop_all_ok:
  assumes "active s"
    and "\<forall>i \<in> set inputs. \<exists>sh. ti_screenshot i = Some sh \<and> sh \<noteq> [] \<and> c sh \<noteq> None"
  shows "map isKeyframe (fst (streamLoop c True s inputs)) =
           map (\<lambda>k. (keyframeCount s + k) mod 10 = 0) [0..<length inputs]
     \<and> active (fst (snd (streamLoop c True s inputs)))
     \<and> keyframeCount (fst (snd (streamLoop c True s inputs))) = keyframeCount s + length inputs
     \<and> snd (snd (streamLoop c True s inputs)) = (True, True)"
  using assms
proof (induction inputs arbitrary: s)
  case Nil
  then show ?case by simp
next
  case (Cons i rest)
  from Cons.prems(2) obtain sh z where
    sh: "ti_screenshot i = Some sh" "sh \<noteq> []" "c sh = Some z" by auto
  let ?r = "getNextFrame c True s (ti_now i) (ti_screenshot i) (ti_now2 i)"
  from getNextFrame_ok [where c=c and sh=sh and z=z and s=s and now="ti_now i" and ?now2.0="ti_now2 i", OF Cons.prems(1) sh(2,3)] sh(1)
  obtain q d where
    r: "tr_frame ?r = Some \<lparr>image = z, isKeyframe = (keyframeCount s mod 10 = 0),
          frame_quality = q, timestamp = ti_now i\<rparr>"
      "tr_timer ?r = Some d" "tr_isStreaming ?r" "active (tr_settings ?r)"
      "keyframeCount (tr_settings ?r) = Suc (keyframeCount s)"
    by auto
  from Cons.prems(2) have rest: "\<forall>i \<in> set rest. \<exists>sh. ti_screenshot i = Some sh \<and> sh \<noteq> [] \<and> c sh \<noteq> None"
    by simp
  note ih = Cons.IH [OF r(4) rest, unfolded r(5)]
  have step: "streamLoop c True s (i # rest) =
      (\<lparr>image = z, isKeyframe = (keyframeCount s mod 10 = 0), frame_quality = q,
        timestamp = ti_now i\<rparr> # fst (streamLoop c True (tr_settings ?r) rest),
       snd (streamLoop c True (tr_settings ?r) rest))"
    using r by (simp add: Let_def split: prod.split)
  have upt: "[0..<length (i # rest)] = 0 # map Suc [0..<length rest]"
    by (simp only: length_Cons map_Suc_upt upt_conv_Cons [OF zero_less_Suc])
  show ?case unfolding step upt using ih by (simp add: o_def)
qed

lemma streamLoop_failed_then_ok:
  assumes "active s" "sh \<noteq> []" "c sh \<noteq> None"
  shows "map isKeyframe (fst (streamLoop c True s
           [\<lparr>ti_now = t1, ti_screenshot = None, ti_now2 = t1'\<rparr>,
            \<lparr>ti_now = t2, ti_screenshot = Some sh, ti_now2 = t2'\<rparr>])) =
         [Suc (keyframeCount s) mod 10 = 0]"
proof -
  let ?r = "getNextFrame c True s t1 None t1'"
  note f = getNextFrame_failed [OF assms(1), of c t1 t1']
  from f(2) obtain d where d: "tr_timer ?r = Some d" by auto
  from assms(3) obtain z where z: "c sh = Some z" by auto
  let ?r2 = "getNextFrame c True (tr_settings ?r) t2 (Some sh) t2'"
  from getNextFrame_ok [where c=c and sh=sh and z=z and s="tr_settings ?r" and now=t2
      and ?now2.0=t2', OF f(5) assms(2) z]
  obtain q d2 where
    r2: "tr_frame ?r2 = Some \<lparr>image = z, isKeyframe = (keyframeCount (tr_settings ?r) mod 10 = 0),
          frame_quality = q, timestamp = t2\<rparr>" "tr_timer ?r2 = Some d2"
    by auto
  show ?thesis
    using f(1,3,6) d r2 by (simp add: Let_def)
qed








lemma update_steps_active [simp]:
  "active (updateFps s x) = active s"
  "active (updateQuality s y) = active s"
  "active (updateResolution s w h) = active s"
  "active (updateAdaptiveBitrate s a) = active s"
  "active (updateConnectionQuality s c) = active s"
  by (simp_all add: updateFps_def updateQuality_def updateResolution_def
      updateAdaptiveBitrate_def updateConnectionQuality_def Let_def split: option.split)

lemma active_streamSettingsHandler: "active (streamSettingsHandler s m) = active s"
  by (simp add: streamSettingsHandler_def)

text \<open>
  The reset of \<open>keyframeCount\<close> does give a keyframe when the callback that follows the
  settings change gets its screenshot.
\<close>

lemma settings_change_next_tick_keyframe:
  assumes "active s" "sh \<noteq> []" "c sh \<noteq> None"
  shows "\<exists>fr. tr_frame (getNextFrame c True (streamSettingsHandler s m) now (Some sh) now2) = Some fr
           \<and> isKeyframe fr"
proof -
  have a: "active (streamSettingsHandler s m)"
    using assms(1) by (simp add: active_streamSettingsHandler)
  from assms(3) obtain z where z: "c sh = Some z" by auto
  from getNextFrame_ok(1) [where c=c and sh=sh and z=z and s="streamSettingsHandler s m"
      and now=now and ?now2.0=now2, OF a assms(2) z]
  show ?thesis by (auto simp: keyframeCount_streamSettingsHandler)
qed

lemma ok_ticks_all_ok:
  "\<forall>i \<in> set (map ok_tick ts). \<exists>sh. ti_screenshot i = Some sh \<and> sh \<noteq> [] \<and> sample_codec sh \<noteq> None"
  by (simp add: ok_tick_def sample_codec_def)

text \<open>
  A settings change that arrives while a call of \<^verbatim>\<open>getNextFrame\<close> awaits its screenshot
  finds the keyframe decision of that call already taken: the frame emitted when the
  screenshot arrives carries the new quality and the old decision.
\<close>

lemma settings_change_during_capture:
  assumes "active s" "keyframeCount s mod 10 \<noteq> 0" "sh \<noteq> []" "c sh \<noteq> None"
  shows "\<exists>s1 pf fr. getNextFrame_begin True s now = Some (s1, pf)
           \<and> tr_frame (getNextFrame_end c True (streamSettingsHandler s1 m) pf (Some sh) now2) = Some fr
           \<and> \<not> isKeyframe fr
           \<and> frame_quality fr = quality (streamSettingsHandler s1 m)"
proof -
  from getNextFrame_begin_active [OF assms(1), of now] obtain s1 where
    b: "getNextFrame_begin True s now =
          Some (s1, \<lparr>pf_now = now, pf_isKeyframe = (keyframeCount s mod 10 = 0),
                     pf_quality = quality s1\<rparr>)"
    by blast
  let ?pf = "\<lparr>pf_now = now, pf_isKeyframe = (keyframeCount s mod 10 = 0), pf_quality = quality s1\<rparr>"
  from assms(4) obtain z where z: "c sh = Some z" by auto
  from getNextFrame_end_ok [where sh=sh and c=c and z=z and f=True
      and s="streamSettingsHandler s1 m" and pf="?pf" and ?now2.0=now2, OF assms(3) z]
  have "tr_frame (getNextFrame_end c True (streamSettingsHandler s1 m) ?pf (Some sh) now2) =
      Some \<lparr>image = z, isKeyframe = (keyframeCount s mod 10 = 0),
             frame_quality = quality (streamSettingsHandler s1 m), timestamp = now\<rparr>"
    by auto
  with b assms(2) show ?thesis by simp
qed

text \<open>
  C5. The claim: after any stream-settings change the next frame emitted carries
  \<open>isKeyframe = true\<close>. The code on the run of the specification's scenario 3, with one
  failed screenshot: seven frames are emitted (the first a keyframe), the client sends
  \<^verbatim>\<open>stream-settings{quality: 50}\<close>, which resets \<open>keyframeCount\<close> to 0; the screenshot
  of the next callback fails, which uses up counter value 0, and the next frame that is
  emitted, by the callback after it, has \<open>isKeyframe = false\<close>.
\<close>

theorem settings_change_keyframe_lost:
  "(case streamLoop sample_codec True settings_80_30
           (map ok_tick [33, 66, 99, 132, 165, 198, 231]) of
      (frames7, s7, flag, scheduled) \<Rightarrow>
        map isKeyframe frames7 = [True, False, False, False, False, False, False]
        \<and> flag \<and> scheduled
        \<and> keyframeCount (streamSettingsHandler s7 quality_50) = 0
        \<and> quality (streamSettingsHandler s7 quality_50) = Finite 50
        \<and> map isKeyframe (fst (streamLoop sample_codec flag (streamSettingsHandler s7 quality_50)
             [failed_tick 264, ok_tick 297])) = [False])"
proof -
  let ?run = "streamLoop sample_codec True settings_80_30
           (map ok_tick [33, 66, 99, 132, 165, 198, 231])"
  obtain frames7 s7 flag scheduled where run: "?run = (frames7, s7, flag, scheduled)"
    by (cases ?run) auto
  have upt: "[0..<7] = [0, 1, 2, 3, 4, 5, 6]" by code_simp
  from streamLoop_all_ok [OF settings_80_30_fields(4) ok_ticks_all_ok,
      of "[33, 66, 99, 132, 165, 198, 231]"]
  have k: "map isKeyframe frames7 = [True, False, False, False, False, False, False]"
    and a: "active s7" and fl: "flag" "scheduled"
    unfolding run by (simp_all add: settings_80_30_fields upt)
  have a': "active (streamSettingsHandler s7 quality_50)"
    using a by (simp add: active_streamSettingsHandler)
  have q: "quality (streamSettingsHandler s7 quality_50) = Finite 50"
    by (simp add: quality_streamSettingsHandler quality_50_def stream_constants)
  have lost: "map isKeyframe (fst (streamLoop sample_codec flag (streamSettingsHandler s7 quality_50)
             [failed_tick 264, ok_tick 297])) = [False]"
    using streamLoop_failed_then_ok [where c=sample_codec and s="streamSettingsHandler s7 quality_50"
        and sh="''data:image/jpeg;base64,QUJD''" and ?t1.0=264 and t1'="264 + 5" and ?t2.0=297
        and t2'="297 + 5", OF a'] fl
    by (simp add: keyframeCount_streamSettingsHandler failed_tick_def ok_tick_def sample_codec_def)
  show ?thesis
    unfolding run using k fl q lost by (simp add: keyframeCount_streamSettingsHandler)
qed

lemma settings_fast_fields:
  "active settings_fast" "keyframeCount settings_fast = 0" "connectionQuality settings_fast = ''fast''"
  by (simp_all add: settings_fast_def newStreamSettings_def str_or_def Let_def)

text \<open>
  C7 as stated fails: for a stream on a fast connection, for which
  \<^verbatim>\<open>calculateStreamSettings\<close> computes \<open>keyframeInterval = 8\<close>, the ninth frame is not a
  keyframe; the keyframes are the first and the eleventh frame.
\<close>

theorem keyframe_interval_fast_counterexample:
  "connectionQuality settings_fast = ''fast''
   \<and> calc_keyframeInterval (calculateStreamSettings ''fast'' DESKTOP) = 8
   \<and> map isKeyframe (fst (streamLoop sample_codec True settings_fast
        (map ok_tick [16, 32, 48, 64, 80, 96, 112, 128, 144, 160, 176]))) =
       [True, False, False, False, False, False, False, False, False, False, True]"
proof -
  have upt: "[0..<11] = [0, 1, 2, 3, 4, 5, 6, 7, 8, 9, 10]" by code_simp
  from streamLoop_all_ok [OF settings_fast_fields(1) ok_ticks_all_ok,
      of "[16, 32, 48, 64, 80, 96, 112, 128, 144, 160, 176]"]
  have "map isKeyframe (fst (streamLoop sample_codec True settings_fast
        (map ok_tick [16, 32, 48, 64, 80, 96, 112, 128, 144, 160, 176]))) =
       [True, False, False, False, False, False, False, False, False, False, True]"
    by (simp add: settings_fast_fields upt)
  then show ?thesis
    by (simp add: settings_fast_fields calculateStreamSettings_def Let_def)
qed

text \<open>
  C7 (amended). The keyframe decision uses the constant \<open>KEYFRAME_INTERVAL = 10\<close> for
  every stream, whatever its connection class: while screenshots succeed, the \<open>k\<close>-th
  frame of a running loop (counting from 0) is a keyframe exactly when
  \<open>keyframeCount + k\<close> is a multiple of 10. \<^verbatim>\<open>calculateStreamSettings\<close> does compute a
  \<open>keyframeInterval\<close> of 15, 10 and 8 for slow, medium and fast connections, but the stream
  settings do not keep it.
\<close>

theorem keyframe_every_tenth_frame:
  assumes "active s"
    and "\<forall>i \<in> set inputs. \<exists>sh. ti_screenshot i = Some sh \<and> sh \<noteq> [] \<and> c sh \<noteq> None"
  shows "map isKeyframe (fst (streamLoop c True s inputs)) =
           map (\<lambda>k. (keyframeCount s + k) mod 10 = 0) [0..<length inputs]
     \<and> calc_keyframeInterval (calculateStreamSettings ''slow'' dt) = 15
     \<and> calc_keyframeInterval (calculateStreamSettings ''medium'' dt) = 10
     \<and> calc_keyframeInterval (calculateStreamSettings ''fast'' dt) = 8"
  using streamLoop_all_ok [OF assms]
  by (simp add: calculateStreamSettings_def Let_def)

theorem keyframe_every_tenth_frame_witness:
  "active settings_fast
   \<and> connectionQuality settings_fast = ''fast''
   \<and> list_all (\<lambda>i. ti_screenshot i = Some ''data:image/jpeg;base64,QUJD'')
        (map ok_tick [16, 32, 48, 64, 80, 96, 112, 128, 144, 160, 176])
   \<and> sample_codec ''data:image/jpeg;base64,QUJD'' \<noteq> None
   \<and> map isKeyframe (fst (streamLoop sample_codec True settings_fast
        (map ok_tick [16, 32, 48, 64, 80, 96, 112, 128, 144, 160, 176]))) =
       [True, False, False, False, False, False, False, False, False, False, True]"
proof -
  have upt: "[0..<11] = [0, 1, 2, 3, 4, 5, 6, 7, 8, 9, 10]" by code_simp
  have ok: "list_all (\<lambda>i. ti_screenshot i = Some ''data:image/jpeg;base64,QUJD'')
        (map ok_tick [16, 32, 48, 64, 80, 96, 112, 128, 144, 160, 176])"
    "sample_codec ''data:image/jpeg;base64,QUJD'' \<noteq> None"
    by (simp_all add: ok_tick_def sample_codec_def)
  from keyframe_every_tenth_frame [OF settings_fast_fields(1) ok_ticks_all_ok,
      of "[16, 32, 48, 64, 80, 96, 112, 128, 144, 160, 176]"]
  have "map isKeyframe (fst (streamLoop sample_codec True settings_fast
        (map ok_tick [16, 32, 48, 64, 80, 96, 112, 128, 144, 160, 176]))) =
       [True, False, False, False, False, False, False, False, False, False, True]"
    by (simp add: settings_fast_fields upt)
  with ok settings_fast_fields show ?thesis by blast
qed

section \<open>Socket router: producer loops of one socket\<close>

text \<open>
  C9. The claim: at every point of any sequence of init, stream-control and disconnect
  messages at most one producer loop of a socket is runnable, and a second init from an
  initialised socket starts no second loop. The code on two init messages from one
  socket: the second init reuses the browser \<open>b1\<close>, but \<^verbatim>\<open>initializeStream\<close> runs again and
  starts a second loop on a new settings object while the first loop goes on: one loop is
  runnable after the first init, two after the second, and when the two pending
  screenshots arrive each loop emits a frame on the socket.
\<close>

theorem second_init_starts_second_loop:
  "socketBrowser (fst (socket_run sample_codec socket_connected two_inits)) = Some ''b1''
   \<and> runnableLoops (fst (socket_run sample_codec socket_connected (take 1 two_inits))) = 1
   \<and> runnableLoops (fst (socket_run sample_codec socket_connected two_inits)) = 2
   \<and> map timestamp (snd (socket_run sample_codec socket_connected
        (two_inits @ [ScreenshotDone 0 (Some ''data:image/jpeg;base64,QUJD'') 520,
                      ScreenshotDone 1 (Some ''data:image/jpeg;base64,QUJD'') 530]))) = [0, 500]"
  by (simp add: two_inits_def socket_connected_def init_30_80_def initHandler_def
      initializeStream_def startStreamLoop_def screenshotDone_def runnable_def runnableLoops_def
      newStreamSettings_def calculateStreamSettings_def value_or_def str_or_def
      getNextFrame_begin_def getNextFrame_end_def scheduleNext_def sample_codec_def
      stream_constants Let_def)

end
